theory Spec2Isabelle
  imports
    Main
    "HOL-Library.Char_ord"
    "HOL-Library.List_Lexorder"
    "HOL-Library.Multiset"
    "HOL-Library.Sublist"
begin

section \<open>Python strings\<close>

text \<open>
  A Python \<open>str\<close> is modelled as a \<^typ>\<open>string\<close> whose characters are the code points
  below 256. The order on characters is the order of their code points and the order on
  strings is the lexicographic one, as Python compares \<open>str\<close> values.
\<close>

definition code_point :: "char \<Rightarrow> nat" where
  "code_point c = of_char c"

text \<open>\<open>str.isspace\<close> on one character: the code points 9-13, 28-32, 133 and 160.\<close>

definition isspace :: "char \<Rightarrow> bool" where
  "isspace c =
     (let n = code_point c
      in (9 \<le> n \<and> n \<le> 13) \<or> (28 \<le> n \<and> n \<le> 32) \<or> n = 133 \<or> n = 160)"

text \<open>\<open>s.strip()\<close>: drops the leading and the trailing whitespace.\<close>

definition strip :: "string \<Rightarrow> string" where
  "strip s = rev (dropWhile isspace (rev (dropWhile isspace s)))"

text \<open>
  \<open>s.lower()\<close>: below 256 the characters with a different lowercase form are
  \<open>A\<close>-\<open>Z\<close> and 192-222 without 215; each maps to the code point 32 above it.
\<close>

definition lower_char :: "char \<Rightarrow> char" where
  "lower_char c =
     (let n = code_point c
      in if (65 \<le> n \<and> n \<le> 90) \<or> (192 \<le> n \<and> n \<le> 222 \<and> n \<noteq> 215)
         then char_of (n + 32) else c)"

definition lower :: "string \<Rightarrow> string" where
  "lower s = map lower_char s"

text \<open>\<open>s.startswith(p)\<close>, \<open>s.removeprefix(p)\<close> and \<open>s.removesuffix(p)\<close>.\<close>

definition startswith :: "string \<Rightarrow> string \<Rightarrow> bool" where
  "startswith s p = prefix p s"

definition removeprefix :: "string \<Rightarrow> string \<Rightarrow> string" where
  "removeprefix s p = (if startswith s p then drop (length p) s else s)"

definition removesuffix :: "string \<Rightarrow> string \<Rightarrow> string" where
  "removesuffix s p = (if suffix p s then take (length s - length p) s else s)"

text \<open>\<open>k in s\<close> on strings: \<open>k\<close> occurs in \<open>s\<close> as a contiguous substring.\<close>

fun contains :: "string \<Rightarrow> string \<Rightarrow> bool" where
  "contains [] k = (k = [])"
| "contains (c # cs) k = (prefix k (c # cs) \<or> contains cs k)"

text \<open>
  \<open>s.split(sep)\<close> for a separator of one character: the pieces between the occurrences
  of the separator, so never an empty list.
\<close>

fun split :: "string \<Rightarrow> char \<Rightarrow> string list" where
  "split [] sep = [[]]"
| "split (c # cs) sep =
     (if c = sep then [] # split cs sep
      else (case split cs sep of
              piece # pieces \<Rightarrow> (c # piece) # pieces
            | [] \<Rightarrow> [[c]]))"

text \<open>\<open>sep.join(xs)\<close>.\<close>

fun join :: "string \<Rightarrow> string list \<Rightarrow> string" where
  "join sep [] = []"
| "join sep [x] = x"
| "join sep (x # y # ys) = x @ sep @ join sep (y # ys)"

text \<open>
  \<open>s.replace(old, new)\<close>: every occurrence of \<open>old\<close>, found from the left and not
  overlapping the one before, becomes \<open>new\<close>. The counter of \<open>replace_from\<close> is the number
  of characters of the occurrence just replaced that are still to be skipped. For an empty
  \<open>old\<close> Python puts \<open>new\<close> before every character and at the end.
\<close>

fun replace_from :: "string \<Rightarrow> string \<Rightarrow> nat \<Rightarrow> string \<Rightarrow> string" where
  "replace_from old new skip [] = []"
| "replace_from old new (Suc skip) (c # cs) = replace_from old new skip cs"
| "replace_from old new 0 (c # cs) =
     (if prefix old (c # cs) then new @ replace_from old new (length old - 1) cs
      else c # replace_from old new 0 cs)"

definition replace :: "string \<Rightarrow> string \<Rightarrow> string \<Rightarrow> string" where
  "replace s old new =
     (if old = [] then new @ concat (map (\<lambda>c. c # new) s)
      else replace_from old new 0 s)"

text \<open>
  \<open>re.sub(r'\s+', ' ', s)\<close>: every maximal run of whitespace becomes one space. On
  strings the class \<open>\s\<close> is the whitespace of \<open>str.isspace\<close>.
\<close>

fun sub_whitespace :: "string \<Rightarrow> string" where
  "sub_whitespace [] = []"
| "sub_whitespace [c] = [if isspace c then CHR '' '' else c]"
| "sub_whitespace (c # d # cs) =
     (if isspace c then
        (if isspace d then sub_whitespace (d # cs) else CHR '' '' # sub_whitespace (d # cs))
      else c # sub_whitespace (d # cs))"

text \<open>\<open>str(n)\<close> for a natural number (a length): its decimal digits.\<close>

definition digit_char :: "nat \<Rightarrow> char" where
  "digit_char d = char_of (48 + d)"

fun str_nat :: "nat \<Rightarrow> string" where
  "str_nat n = (if n < 10 then [digit_char n] else str_nat (n div 10) @ [digit_char (n mod 10)])"

declare str_nat.simps [simp del]

section \<open>Exceptions\<close>

text \<open>
  The exceptions that the modelled code can raise: an index out of range, a missing
  dictionary key, \<open>int\<close> applied to a string that is not a number, a value of the wrong
  type where a string is needed, a string method called on a value that is no string, and
  any failure of the PDF library while a document is opened or read.
\<close>

datatype error = IndexError | KeyError | ValueError | TypeError | AttributeError | ReaderError

text \<open>\<open>xs[i]\<close>: a negative index counts from the end; out of range raises.\<close>

definition index :: "'a list \<Rightarrow> int \<Rightarrow> error + 'a" where
  "index xs i =
     (if 0 \<le> i \<and> i < int (length xs) then Inr (xs ! nat i)
      else if i < 0 \<and> - int (length xs) \<le> i then Inr (xs ! nat (int (length xs) + i))
      else Inl IndexError)"

text \<open>
  \<open>int(s)\<close> on a string, base ten: whitespace around the number is skipped (the
  characters 9-13 and 32, and 133 and 160, which \<open>int\<close> turns into spaces first), then an
  optional sign, then decimal digits, where one underscore may stand between two digits.
  Anything else raises \<open>ValueError\<close>, here \<open>None\<close>. The interpreter's configurable limit on
  the number of digits is not modelled.
\<close>

definition int_space :: "char \<Rightarrow> bool" where
  "int_space c =
     (let n = code_point c in (9 \<le> n \<and> n \<le> 13) \<or> n = 32 \<or> n = 133 \<or> n = 160)"

definition isdigit :: "char \<Rightarrow> bool" where
  "isdigit c = (48 \<le> code_point c \<and> code_point c \<le> 57)"

fun digits_value :: "nat \<Rightarrow> string \<Rightarrow> nat" where
  "digits_value acc [] = acc"
| "digits_value acc (c # cs) = digits_value (10 * acc + (code_point c - 48)) cs"

fun underscores_ok :: "string \<Rightarrow> bool" where
  "underscores_ok [] = False"
| "underscores_ok [c] = isdigit c"
| "underscores_ok (c # d # cs) =
     (if isdigit c then underscores_ok (d # cs)
      else c = CHR ''_'' \<and> isdigit d \<and> underscores_ok (d # cs))"

definition py_int :: "string \<Rightarrow> int option" where
  "py_int s =
     (let t = dropWhile int_space s;
          negative = (t \<noteq> [] \<and> hd t = CHR ''-'');
          u = (if t \<noteq> [] \<and> (hd t = CHR ''-'' \<or> hd t = CHR ''+'') then tl t else t);
          body = takeWhile (\<lambda>c. isdigit c \<or> c = CHR ''_'') u;
          rest = dropWhile (\<lambda>c. isdigit c \<or> c = CHR ''_'') u
      in if body \<noteq> [] \<and> isdigit (hd body) \<and> underscores_ok body \<and> list_all int_space rest
         then Some ((if negative then - 1 else 1) * int (digits_value 0 (filter isdigit body)))
         else None)"

section \<open>The set comparator: \<open>compare\<close>\<close>

text \<open>
  \<open>compare\<close> copies both lists with every space character removed from every element
  (\<open>match.replace(" ", "")\<close>), sorts both copies and tests them for equality. One of
  \<open>==\<close> and \<open>!=\<close> holds of two lists of strings, so a Boolean is always returned.
\<close>

definition compare :: "string list \<Rightarrow> string list \<Rightarrow> bool" where
  "compare temp_list_1 temp_list_2 =
     (let match_list_1 = sort (map (\<lambda>match. replace match '' '' '''') temp_list_1);
          match_list_2 = sort (map (\<lambda>match. replace match '' '' '''') temp_list_2)
      in if match_list_1 = match_list_2 then True else False)"

section \<open>The keyword matcher: \<open>search_for_words\<close>\<close>

definition newline :: char where
  "newline = CHR 0x0A"

text \<open>
  The body of the loop over the keywords, for one keyword: the list \<open>matches\<close> that is
  appended to the keyword's entry. A keyword that starts with an underscore selects the
  line at the index that follows the underscore, minus one; \<open>int\<close> and the indexing can
  raise. Any other keyword collects the stripped lines that contain it, both sides
  stripped and lowercased. An empty list of matches becomes the list of one empty string.
\<close>

definition keyword_matches :: "string \<Rightarrow> string \<Rightarrow> error + string list" where
  "keyword_matches keyword text =
     (if startswith keyword ''_'' then
        (case py_int (removeprefix keyword ''_'') of
           None \<Rightarrow> Inl ValueError
         | Some n \<Rightarrow>
             (case index (split text newline) (n - 1) of
                Inl e \<Rightarrow> Inl e
              | Inr line \<Rightarrow> Inr (let matches = [line] in if matches = [] then [''''] else matches)))
      else
        Inr (let matches = map strip
                   (filter (\<lambda>line. contains (lower (strip line)) (lower (strip keyword)))
                      (split text newline))
             in if matches = [] then [''''] else matches))"

text \<open>
  The loop itself: the matches of each keyword extend the entry stored under the stripped
  keyword. The dictionary starts with an empty list under every stripped keyword.
\<close>

fun search_loop ::
  "string list \<Rightarrow> string \<Rightarrow> (string \<rightharpoonup> string list) \<Rightarrow> error + (string \<rightharpoonup> string list)" where
  "search_loop [] text matches_by_word = Inr matches_by_word"
| "search_loop (keyword # keywords) text matches_by_word =
     (case keyword_matches keyword text of
        Inl e \<Rightarrow> Inl e
      | Inr matches \<Rightarrow>
          (case matches_by_word (strip keyword) of
             None \<Rightarrow> Inl KeyError
           | Some entry \<Rightarrow>
               search_loop keywords text (matches_by_word(strip keyword \<mapsto> entry @ matches))))"

definition search_for_words :: "string list \<Rightarrow> string \<Rightarrow> error + (string \<rightharpoonup> string list)" where
  "search_for_words keywords text =
     search_loop keywords text (map_of (map (\<lambda>keyword. (strip keyword, [])) keywords))"

section \<open>Comparison and feature mapping: \<open>compare_and_mapping\<close>\<close>

text \<open>
  A cell of the input sheet or of a result row: a string, the Boolean that \<open>compare\<close>
  returned, or the float \<open>nan\<close> that pandas gives for an empty cell of the sheet.
\<close>

datatype cell = Str string | Bool bool | Nan

text \<open>
  The inner \<open>for\<close>/\<open>else\<close> over the rows of the mapping table, for one changed feature:
  the first row whose keyword equals the feature (both lowercased and stripped) gives its
  mapped name, lowercased and stripped; with no such row the feature itself is taken. A
  row is the pair of its first and its last column.
\<close>

fun map_feature :: "(string \<times> string) list \<Rightarrow> string \<Rightarrow> string" where
  "map_feature [] changed_feature = strip (lower changed_feature)"
| "map_feature (keyword_mapping_feature # keyword_mapping) changed_feature =
     (if strip (lower changed_feature) = strip (lower (fst keyword_mapping_feature))
      then strip (lower (snd keyword_mapping_feature))
      else map_feature keyword_mapping changed_feature)"

text \<open>
  The loop over the keywords, on the three lists \<open>df_list\<close>, \<open>changed_features\<close> and
  \<open>mapped_features\<close>. The mapping of the changed features is inside the loop: every
  iteration maps all the features changed so far again.
\<close>

fun compare_loop ::
  "(string \<rightharpoonup> string list) \<Rightarrow> (string \<rightharpoonup> string list) \<Rightarrow> string list \<Rightarrow>
   (string \<times> string) list \<Rightarrow> cell list \<times> string list \<times> string list \<Rightarrow>
   error + cell list \<times> string list \<times> string list" where
  "compare_loop matches_by_word1 matches_by_word2 [] keyword_mapping state = Inr state"
| "compare_loop matches_by_word1 matches_by_word2 (keyword # keywords) keyword_mapping
     (df_list, changed_features, mapped_features) =
     (case matches_by_word1 (strip keyword) of
        None \<Rightarrow> Inl KeyError
      | Some matches_list_1 \<Rightarrow>
     (case matches_by_word2 (strip keyword) of
        None \<Rightarrow> Inl KeyError
      | Some matches_list_2 \<Rightarrow>
          (let changed_features' =
                 (if \<not> compare matches_list_1 matches_list_2
                  then changed_features @ [strip keyword] else changed_features);
               df_list' = df_list @
                 [Str (join ''|'' matches_list_1), Str (join ''|'' matches_list_2),
                  Bool (compare matches_list_1 matches_list_2)];
               mapped_features' =
                 mapped_features @ map (map_feature keyword_mapping) changed_features'
           in compare_loop matches_by_word1 matches_by_word2 keywords keyword_mapping
                (df_list', changed_features', mapped_features'))))"

text \<open>
  After the loop the mapped features lose their duplicates and are sorted
  (\<open>list(set(...))\<close>, then \<open>sort\<close>), and the row gets, in front, the change flag, the
  changed features and the mapped features, the last two joined by a comma and a space.
\<close>

definition compare_and_mapping ::
  "(string \<rightharpoonup> string list) \<Rightarrow> (string \<rightharpoonup> string list) \<Rightarrow> string list \<Rightarrow>
   (string \<times> string) list \<Rightarrow> error + cell list" where
  "compare_and_mapping matches_by_word1 matches_by_word2 keywords keyword_mapping =
     (case compare_loop matches_by_word1 matches_by_word2 keywords keyword_mapping ([], [], []) of
        Inl e \<Rightarrow> Inl e
      | Inr (df_list, changed_features, mapped_features) \<Rightarrow>
          Inr (Str (if changed_features \<noteq> [] then ''Yes'' else ''No'')
               # Str (join '', '' changed_features)
               # Str (join '', '' (sort (remdups mapped_features)))
               # df_list))"

section \<open>The pair evaluator: \<open>magic_main\<close>\<close>

text \<open>
  A cell of the columns DOCUMENT and LATEST of the input sheet is a path or is empty; for
  an empty cell pandas gives the float \<open>nan\<close>, which is what the evaluator then gets in
  place of a string. In a row the cell stands as it is.
\<close>

datatype link = Path string | Empty

fun cell_of :: "link \<Rightarrow> cell" where
  "cell_of (Path p) = Str p"
| "cell_of Empty = Nan"

text \<open>
  The PDF library is a parameter: \<open>page_count\<close> is the number of pages of the document
  opened at a path, and \<open>text_blocks\<close> the texts of its blocks, page after page, as
  \<open>get_text("blocks")\<close> gives them; opening or reading can fail. Opening what is not a
  string raises \<open>TypeError\<close>.
\<close>

record reader =
  page_count :: "string \<Rightarrow> error + int"
  text_blocks :: "string \<Rightarrow> error + string list"

fun count_of_pages :: "reader \<Rightarrow> link \<Rightarrow> error + int" where
  "count_of_pages rd (Path link) = page_count rd link"
| "count_of_pages rd Empty = Inl TypeError"

text \<open>
  \<open>fitz_extract_all_words\<close> removes a final newline from the path, twice, opens the
  document there, and keeps of every block the text with its newlines turned into spaces,
  its runs of whitespace collapsed and its ends stripped; a block that is empty then, or
  that holds an image placeholder, is left out. A float has no \<open>removesuffix\<close>.
\<close>

fun fitz_extract_all_words :: "reader \<Rightarrow> link \<Rightarrow> error + string list" where
  "fitz_extract_all_words rd (Path link) =
     (case text_blocks rd (removesuffix (removesuffix link [newline]) [newline]) of
        Inl e \<Rightarrow> Inl e
      | Inr blocks \<Rightarrow>
          Inr (filter (\<lambda>new_line. \<not> (contains new_line ''<image:'' \<or> new_line = []))
                 (map (\<lambda>line. strip (sub_whitespace (replace line [newline] '' ''))) blocks)))"
| "fitz_extract_all_words rd Empty = Inl AttributeError"

declare count_of_pages.simps [simp del]

declare fitz_extract_all_words.simps [simp del]

text \<open>
  Every call of the two functions by the evaluator is recorded, in order, so that what the
  evaluator read is part of its result.
\<close>

datatype read = Pages link | Words link

text \<open>
  \<open>links\<close> is one row of the columns DOCUMENT and LATEST, so it has two entries:
  \<open>links[0]\<close> is the first and \<open>links[-1]\<close> the second. \<open>"".join(links)\<close> is the two in a
  row when both are strings and raises \<open>TypeError\<close> otherwise. The third cell of every
  row is that concatenation without the name of the file share.
\<close>

fun join_links :: "link \<times> link \<Rightarrow> error + string" where
  "join_links (Path old, Path latest) = Inr (old @ latest)"
| "join_links (Path old, Empty) = Inl TypeError"
| "join_links (Empty, latest) = Inl TypeError"

definition pdfs_share :: string where
  "pdfs_share = [CHR 0x5C, CHR 0x5C] @ ''10.199.104.50'' @ [CHR 0x5C] @ ''pdfs''"

definition old_latest :: "link \<times> link \<Rightarrow> error + string" where
  "old_latest links =
     (case join_links links of
        Inl e \<Rightarrow> Inl e
      | Inr joined \<Rightarrow> Inr (replace joined pdfs_share ''''))"

text \<open>
  The body of the \<open>try\<close>: the row it returns or the exception it raises, and the reads.
  The row of the page limit is a list display, whose third element can raise; the full
  row gets its first six cells by \<open>insert\<close>, the concatenation before the two links.
\<close>

definition magic_try ::
  "reader \<Rightarrow> link \<times> link \<Rightarrow> string list \<Rightarrow> string \<Rightarrow> (string \<times> string) list \<Rightarrow>
   (error + cell list) \<times> read list" where
  "magic_try rd links keywords vendor_code keyword_mapping =
     (case count_of_pages rd (fst links) of
        Inl e \<Rightarrow> (Inl e, [Pages (fst links)])
      | Inr num_pages_1 \<Rightarrow>
     (case count_of_pages rd (snd links) of
        Inl e \<Rightarrow> (Inl e, [Pages (fst links), Pages (snd links)])
      | Inr num_pages_2 \<Rightarrow>
          if num_pages_2 > 200 \<or> num_pages_1 > 200 then
            (case old_latest links of
               Inl e \<Rightarrow> (Inl e, [Pages (fst links), Pages (snd links)])
             | Inr name \<Rightarrow>
                 (Inr [cell_of (fst links), cell_of (snd links), Str name,
                       Str ''Page limit exceeded''],
                  [Pages (fst links), Pages (snd links)]))
          else
     (case fitz_extract_all_words rd (fst links) of
        Inl e \<Rightarrow> (Inl e, [Pages (fst links), Pages (snd links), Words (fst links)])
      | Inr lines_1 \<Rightarrow>
     (let reads = [Pages (fst links), Pages (snd links), Words (fst links), Words (snd links)]
      in case fitz_extract_all_words rd (snd links) of
        Inl e \<Rightarrow> (Inl e, reads)
      | Inr lines_2 \<Rightarrow>
          (let text1 = join [newline] (map lower lines_1);
               text2 = join [newline] (map lower lines_2)
           in case search_for_words keywords text1 of
                Inl e \<Rightarrow> (Inl e, reads)
              | Inr matches_by_word1 \<Rightarrow>
             (case search_for_words keywords text2 of
                Inl e \<Rightarrow> (Inl e, reads)
              | Inr matches_by_word2 \<Rightarrow>
             (case compare_and_mapping matches_by_word1 matches_by_word2 keywords
                     keyword_mapping of
                Inl e \<Rightarrow> (Inl e, reads)
              | Inr final_row \<Rightarrow>
             (case old_latest links of
                Inl e \<Rightarrow> (Inl e, reads)
              | Inr name \<Rightarrow>
                  (Inr (cell_of (fst links) # cell_of (snd links) # Str name
                        # Str vendor_code # Str (str_nat (length text1))
                        # Str (str_nat (length text2)) # final_row),
                   reads)))))))))"

text \<open>
  \<open>magic_main\<close>: the \<open>except\<close> clause catches every exception of the body and returns
  the row "Error in reading". That row is a list display too: when its third element
  raises, the exception leaves \<open>magic_main\<close>. The result is the row returned or the
  exception that left, and the reads.
\<close>

definition magic_main ::
  "reader \<Rightarrow> link \<times> link \<Rightarrow> string list \<Rightarrow> string \<Rightarrow> (string \<times> string) list \<Rightarrow>
   (error + cell list) \<times> read list" where
  "magic_main rd links keywords vendor_code keyword_mapping =
     (case magic_try rd links keywords vendor_code keyword_mapping of
        (Inr row, reads) \<Rightarrow> (Inr row, reads)
      | (Inl E, reads) \<Rightarrow>
          (case old_latest links of
             Inl e \<Rightarrow> (Inl e, reads)
           | Inr name \<Rightarrow>
               (Inr [cell_of (fst links), cell_of (snd links), Str name,
                     Str ''Error in reading''],
                reads)))"

section \<open>The batch loop\<close>

text \<open>
  The pairs of a vendor are taken in slices of \<open>one_time_count\<close>, from the index 0 in
  steps of \<open>one_time_count\<close>. \<open>executor.map\<close> gives the results of the calls of a slice
  in the order of the slice, and gives an exception that left a call by raising it when
  the result of that call is asked for. The inner \<open>for\<close> appends each result to
  \<open>results_list\<close>; nothing around it catches an exception before the \<open>except\<close> clause of
  the vendor, so the first exception ends both loops. The result is \<open>results_list\<close> as it
  stands then, and the exception if there was one.
\<close>

fun collect_results :: "(error + 'b) list \<Rightarrow> 'b list \<Rightarrow> 'b list \<times> error option" where
  "collect_results [] results_list = (results_list, None)"
| "collect_results (Inr result # results) results_list =
     collect_results results (results_list @ [result])"
| "collect_results (Inl e # results) results_list = (results_list, Some e)"

definition one_time_count :: nat where
  "one_time_count = 250"

function batch_loop ::
  "('a \<Rightarrow> error + 'b) \<Rightarrow> 'a list \<Rightarrow> nat \<Rightarrow> 'b list \<Rightarrow> 'b list \<times> error option" where
  "batch_loop f links_list i results_list =
     (if i < length links_list then
        (case collect_results (map f (take one_time_count (drop i links_list))) results_list of
           (results_list', Some e) \<Rightarrow> (results_list', Some e)
         | (results_list', None) \<Rightarrow>
             batch_loop f links_list (i + one_time_count) results_list')
      else (results_list, None))"
  by pat_completeness auto
termination
  by (relation "measure (\<lambda>(f, links_list, i, results_list). length links_list - i)")
     (auto simp: one_time_count_def)

declare batch_loop.simps [simp del]

definition batch_results ::
  "reader \<Rightarrow> (link \<times> link) list \<Rightarrow> string list \<Rightarrow> string \<Rightarrow> (string \<times> string) list \<Rightarrow>
   cell list list \<times> error option" where
  "batch_results rd links_list keywords vendor_code keyword_mapping =
     batch_loop (\<lambda>links. fst (magic_main rd links keywords vendor_code keyword_mapping))
       links_list 0 []"

section \<open>The comparator as the specification words it\<close>

text \<open>
  The specification describes the comparison as: strip all whitespace from every element
  of both sequences, sort both, compare for equality. These two definitions follow that
  wording, with \<open>isspace\<close> as the whitespace test; they are only compared with \<open>compare\<close>.
\<close>

definition strip_all_whitespace :: "string \<Rightarrow> string" where
  "strip_all_whitespace s = filter (\<lambda>c. \<not> isspace c) s"

definition spec_equal :: "string list \<Rightarrow> string list \<Rightarrow> bool" where
  "spec_equal a b = (sort (map strip_all_whitespace a) = sort (map strip_all_whitespace b))"

section \<open>Sample documents\<close>

text \<open>
  A reader over a handful of paths, for concrete evaluations: \<open>old.pdf\<close>, its copy
  \<open>copy.pdf\<close> and \<open>new.pdf\<close> have two pages and two blocks of text each, between them
  an image or an empty block; \<open>long.pdf\<close> has 250 pages, \<open>scan.pdf\<close> has a page count
  and no readable text, and any other path cannot be opened.
\<close>

definition sample_reader :: reader where
  "sample_reader =
     \<lparr>page_count = (\<lambda>link.
        if link = ''old.pdf'' \<or> link = ''copy.pdf'' \<or> link = ''new.pdf'' then Inr 2
        else if link = ''scan.pdf'' then Inr 1
        else if link = ''long.pdf'' then Inr 250
        else Inl ReaderError),
      text_blocks = (\<lambda>link.
        if link = ''old.pdf'' \<or> link = ''copy.pdf'' then
          Inr [''Voltage:'' @ [newline] @ ''5V'' @ [newline], ''<image: DeviceRGB, width: 40>'',
               ''Current:   1A'']
        else if link = ''new.pdf'' then
          Inr [''Voltage: 3V'', [newline], '' Current: 2A '']
        else Inl ReaderError)\<rparr>"

section \<open>Facts about the string functions\<close>

lemma split_not_Nil: "split s sep \<noteq> []"
  by (induction s) (auto split: list.splits)

lemma replace_from_space: "replace_from '' '' [] 0 s = filter (\<lambda>c. c \<noteq> CHR '' '') s"
  by (induction s) auto

lemma replace_space: "replace s '' '' '''' = filter (\<lambda>c. c \<noteq> CHR '' '') s"
  by (simp add: replace_def replace_from_space)

lemma sort_eq_iff_mset: "sort xs = sort ys \<longleftrightarrow> mset xs = mset (ys :: string list)"
  by (metis sorted_list_of_multiset_mset mset_sorted_list_of_multiset)

lemma compare_iff_mset:
  "compare a b \<longleftrightarrow>
   mset (map (filter (\<lambda>c. c \<noteq> CHR '' '')) a) = mset (map (filter (\<lambda>c. c \<noteq> CHR '' '')) b)"
  by (simp add: compare_def replace_space sort_eq_iff_mset)

section \<open>Facts about the keyword matcher\<close>

lemma keyword_matches_not_Nil: "keyword_matches k text = Inr ms \<Longrightarrow> ms \<noteq> []"
  by (auto simp: keyword_matches_def Let_def split: if_splits option.splits sum.splits)

text \<open>
  An entry of the result is the entry before the loop followed by the matches of every
  keyword of the list that is stored under its key, in the order of the list.
\<close>

lemma search_loop_entry:
  "search_loop ks text m = Inr m' \<Longrightarrow> m key = Some e \<Longrightarrow>
   m' key = Some (e @ concat (map (\<lambda>k. projr (keyword_matches k text))
                                (filter (\<lambda>k. strip k = key) ks)))"
proof (induction ks arbitrary: m e)
  case Nil
  then show ?case by simp
next
  case (Cons k ks)
  from Cons.prems(1) obtain ms entry where
    km: "keyword_matches k text = Inr ms" and
    en: "m (strip k) = Some entry" and
    rest: "search_loop ks text (m(strip k \<mapsto> entry @ ms)) = Inr m'"
    by (auto split: sum.splits option.splits)
  show ?case
  proof (cases "strip k = key")
    case True
    with en Cons.prems(2) have "entry = e" by simp
    with True have "(m(strip k \<mapsto> entry @ ms)) key = Some (e @ ms)" by simp
    from Cons.IH [OF rest this] True km show ?thesis by simp
  next
    case False
    with Cons.prems(2) have "(m(strip k \<mapsto> entry @ ms)) key = Some e" by simp
    from Cons.IH [OF rest this] False show ?thesis by simp
  qed
qed

lemma search_loop_succeeds:
  "search_loop ks text m = Inr m' \<Longrightarrow> k \<in> set ks \<Longrightarrow> \<exists>ms. keyword_matches k text = Inr ms"
proof (induction ks arbitrary: m)
  case Nil
  then show ?case by simp
next
  case (Cons a ks)
  then show ?case by (auto split: sum.splits option.splits)
qed

lemma search_loop_isl:
  "\<forall>k\<in>set ks. m (strip k) \<noteq> None \<Longrightarrow>
   isl (search_loop ks text m) \<longleftrightarrow> (\<exists>k\<in>set ks. isl (keyword_matches k text))"
proof (induction ks arbitrary: m)
  case Nil
  then show ?case by simp
next
  case (Cons a ks)
  show ?case
  proof (cases "keyword_matches a text")
    case (Inl e)
    then show ?thesis by simp
  next
    case (Inr ms)
    from Cons.prems obtain entry where en: "m (strip a) = Some entry" by auto
    from Cons.prems have "\<forall>k\<in>set ks. (m(strip a \<mapsto> entry @ ms)) (strip k) \<noteq> None" by simp
    from Cons.IH [OF this]
    have "isl (search_loop ks text (m(strip a \<mapsto> entry @ ms))) \<longleftrightarrow>
          (\<exists>k\<in>set ks. isl (keyword_matches k text))" .
    moreover have "search_loop (a # ks) text m = search_loop ks text (m(strip a \<mapsto> entry @ ms))"
      using Inr en by simp
    ultimately show ?thesis using Inr by simp
  qed
qed

lemma initial_entry:
  "k \<in> set ks \<Longrightarrow> map_of (map (\<lambda>keyword. (strip keyword, [])) ks) (strip k) = Some []"
  by (induction ks) auto

text \<open>The search raises exactly when some keyword of the list raises.\<close>

lemma search_for_words_isl:
  "isl (search_for_words ks text) \<longleftrightarrow> (\<exists>k\<in>set ks. isl (keyword_matches k text))"
  unfolding search_for_words_def
  by (rule search_loop_isl) (simp add: initial_entry)

lemma search_for_words_entry:
  assumes "search_for_words ks text = Inr m" and "k \<in> set ks"
  shows "m (strip k) =
         Some (concat (map (\<lambda>k. projr (keyword_matches k text))
                         (filter (\<lambda>k'. strip k' = strip k) ks)))"
  using search_loop_entry [OF assms(1) [unfolded search_for_words_def] initial_entry [OF assms(2)]]
  by simp

lemma list_all2_map_eq: "list_all2 (\<lambda>x y. f x = f y) xs ys \<Longrightarrow> map f xs = map f ys"
  by (induction rule: list_all2_induct) auto

section \<open>Facts about indexing\<close>

lemma contains_iff_sublist: "contains s k \<longleftrightarrow> sublist k s"
  by (induction s) (auto simp: sublist_Cons_right)

lemma index_in_range:
  "0 \<le> i \<Longrightarrow> i < int (length xs) \<Longrightarrow> index xs i = Inr (xs ! nat i)"
  by (simp add: index_def)

lemma index_from_end:
  "i < 0 \<Longrightarrow> - int (length xs) \<le> i \<Longrightarrow> index xs i = Inr (xs ! nat (int (length xs) + i))"
  by (simp add: index_def)

lemma index_out_of_range:
  "int (length xs) \<le> i \<or> i < - int (length xs) \<Longrightarrow> index xs i = Inl IndexError"
  by (auto simp: index_def)

lemma keyword_matches_positional:
  "startswith k ''_'' \<Longrightarrow> py_int (removeprefix k ''_'') = Some n \<Longrightarrow>
   keyword_matches k text =
     (case index (split text newline) (n - 1) of Inl e \<Rightarrow> Inl e | Inr line \<Rightarrow> Inr [line])"
  by (simp add: keyword_matches_def split: sum.splits)

section \<open>Facts about the comparison loop\<close>

lemma compare_loop_result:
  "compare_loop m1 m2 ks km (df, cf, mf) = Inr (df', cf', mf') \<Longrightarrow>
   cf' = cf @ map strip (filter (\<lambda>k. \<not> compare (the (m1 (strip k))) (the (m2 (strip k)))) ks) \<and>
   df' = df @ concat (map (\<lambda>k. [Str (join ''|'' (the (m1 (strip k)))),
                                   Str (join ''|'' (the (m2 (strip k)))),
                                   Bool (compare (the (m1 (strip k))) (the (m2 (strip k))))]) ks) \<and>
   (set mf = map_feature km ` set cf \<longrightarrow> set mf' = map_feature km ` set cf')"
proof (induction ks arbitrary: df cf mf)
  case Nil
  then show ?case by simp
next
  case (Cons k ks)
  from Cons.prems obtain l1 l2 where
    l1: "m1 (strip k) = Some l1" and l2: "m2 (strip k) = Some l2"
    by (auto split: option.splits)
  let ?cf = "if \<not> compare l1 l2 then cf @ [strip k] else cf"
  let ?df = "df @ [Str (join ''|'' l1), Str (join ''|'' l2), Bool (compare l1 l2)]"
  let ?mf = "mf @ map (map_feature km) ?cf"
  from Cons.prems l1 l2 have "compare_loop m1 m2 ks km (?df, ?cf, ?mf) = Inr (df', cf', mf')"
    by (simp add: Let_def)
  from Cons.IH [OF this] l1 l2 show ?case
    by (auto simp: image_Un)
qed

lemma compare_loop_succeeds:
  "\<forall>k\<in>set ks. m1 (strip k) \<noteq> None \<and> m2 (strip k) \<noteq> None \<Longrightarrow>
   \<exists>result. compare_loop m1 m2 ks km state = Inr result"
proof (induction ks arbitrary: state)
  case Nil
  then show ?case by (cases state rule: prod_cases3) simp
next
  case (Cons k ks)
  then show ?case by (cases state rule: prod_cases3) (auto simp: Let_def)
qed

lemma search_for_words_has_keys:
  "search_for_words ks text = Inr m \<Longrightarrow> k \<in> set ks \<Longrightarrow> m (strip k) \<noteq> None"
  using search_for_words_entry by fastforce

lemma sort_remdups_cong: "set xs = set ys \<Longrightarrow> sort (remdups xs) = sort (remdups ys)"
  by (metis sorted_list_of_set_sort_remdups)

lemma compare_and_mapping_row:
  assumes "\<forall>k\<in>set ks. m1 (strip k) \<noteq> None \<and> m2 (strip k) \<noteq> None"
  shows "compare_and_mapping m1 m2 ks km =
     Inr ([Str (if (\<exists>k\<in>set ks. \<not> compare (the (m1 (strip k))) (the (m2 (strip k)))) then ''Yes'' else ''No''),
          Str (join '', '' (map strip (filter (\<lambda>k. \<not> compare (the (m1 (strip k))) (the (m2 (strip k)))) ks))),
          Str (join '', '' (sort (remdups (map (map_feature km) (map strip
                 (filter (\<lambda>k. \<not> compare (the (m1 (strip k))) (the (m2 (strip k)))) ks))))))]
          @ concat (map (\<lambda>k. [Str (join ''|'' (the (m1 (strip k)))),
                                   Str (join ''|'' (the (m2 (strip k)))),
                                   Bool (compare (the (m1 (strip k))) (the (m2 (strip k))))]) ks))"
proof -
  from compare_loop_succeeds [OF assms] obtain df cf mf where
    run: "compare_loop m1 m2 ks km ([], [], []) = Inr (df, cf, mf)"
    by (metis prod_cases3)
  note r = compare_loop_result [OF run]
  from r have cf: "cf = map strip (filter (\<lambda>k. \<not> compare (the (m1 (strip k))) (the (m2 (strip k)))) ks)"
    by simp
  from r have df: "df = concat (map (\<lambda>k. [Str (join ''|'' (the (m1 (strip k)))),
                                   Str (join ''|'' (the (m2 (strip k)))),
                                   Bool (compare (the (m1 (strip k))) (the (m2 (strip k))))]) ks)"
    by simp
  have "set ([] :: string list) = map_feature km ` set []" by simp
  with r have "set mf = map_feature km ` set cf" by blast
  then have "set mf = set (map (map_feature km) cf)" by (simp only: set_map)
  then have mf: "sort (remdups mf) = sort (remdups (map (map_feature km) cf))"
    by (rule sort_remdups_cong)
  have flag: "(cf \<noteq> []) = (\<exists>k\<in>set ks. \<not> compare (the (m1 (strip k))) (the (m2 (strip k))))"
    unfolding cf by (auto simp: filter_empty_conv)
  show ?thesis
    unfolding compare_and_mapping_def run
    by (simp only: sum.case prod.case mf flag) (simp add: cf df)
qed

lemma compare_and_mapping_keys:
  "compare_and_mapping m1 m2 ks km = Inr row \<Longrightarrow>
   \<forall>k\<in>set ks. m1 (strip k) \<noteq> None \<and> m2 (strip k) \<noteq> None"
proof -
  have "compare_loop m1 m2 ks km st = Inr r \<Longrightarrow>
        \<forall>k\<in>set ks. m1 (strip k) \<noteq> None \<and> m2 (strip k) \<noteq> None" for st r
  proof (induction ks arbitrary: st)
    case Nil
    then show ?case by simp
  next
    case (Cons k ks)
    then show ?case
      by (cases st rule: prod_cases3) (auto simp: Let_def split: option.splits)
  qed
  then show "compare_and_mapping m1 m2 ks km = Inr row \<Longrightarrow>
   \<forall>k\<in>set ks. m1 (strip k) \<noteq> None \<and> m2 (strip k) \<noteq> None"
    unfolding compare_and_mapping_def by (auto split: sum.splits)
qed

lemma map_feature_find:
  "map_feature km c =
     (case find (\<lambda>r. strip (lower (fst r)) = strip (lower c)) km of
        Some r \<Rightarrow> strip (lower (snd r)) | None \<Rightarrow> strip (lower c))"
  by (induction km) auto

section \<open>Facts about the pair evaluator\<close>

lemma keyword_matches_isl:
  "isl (keyword_matches k text) \<longleftrightarrow>
   startswith k ''_'' \<and>
   (case py_int (removeprefix k ''_'') of
      None \<Rightarrow> True
    | Some n \<Rightarrow> int (length (split text newline)) < n \<or> n \<le> - int (length (split text newline)))"
  by (auto simp: keyword_matches_def index_def split: option.splits)

lemma old_latest_paths:
  "old_latest (Path old, Path latest) = Inr (replace (old @ latest) pdfs_share '''')"
  by (simp add: old_latest_def)

lemma old_latest_isl: "isl (old_latest links) \<longleftrightarrow> fst links = Empty \<or> snd links = Empty"
  by (cases links rule: join_links.cases) (simp_all add: old_latest_def)


lemma magic_main_search_raises:
  assumes "count_of_pages rd (Path old) = Inr n1" and "count_of_pages rd (Path latest) = Inr n2"
    and "n1 \<le> 200" and "n2 \<le> 200"
    and "fitz_extract_all_words rd (Path old) = Inr lines_1"
    and "fitz_extract_all_words rd (Path latest) = Inr lines_2"
    and "isl (search_for_words ks (join [newline] (map lower lines_1))) \<or>
         isl (search_for_words ks (join [newline] (map lower lines_2)))"
  shows "magic_main rd (Path old, Path latest) ks vc km =
           (Inr [Str old, Str latest, Str (replace (old @ latest) pdfs_share ''''),
                 Str ''Error in reading''],
            [Pages (Path old), Pages (Path latest), Words (Path old), Words (Path latest)])"
  using assms
  by (auto simp: magic_main_def magic_try_def Let_def old_latest_paths split: sum.splits)

lemma magic_main_normal_row:
  assumes "count_of_pages rd (Path old) = Inr n1" and "count_of_pages rd (Path latest) = Inr n2"
    and "n1 \<le> 200" and "n2 \<le> 200"
    and "fitz_extract_all_words rd (Path old) = Inr lines_1"
    and "fitz_extract_all_words rd (Path latest) = Inr lines_2"
    and "search_for_words ks (join [newline] (map lower lines_1)) = Inr m1"
    and "search_for_words ks (join [newline] (map lower lines_2)) = Inr m2"
    and "compare_and_mapping m1 m2 ks km = Inr final_row"
  shows "magic_main rd (Path old, Path latest) ks vc km =
           (Inr (Str old # Str latest # Str (replace (old @ latest) pdfs_share '''') # Str vc
                 # Str (str_nat (length (join [newline] (map lower lines_1))))
                 # Str (str_nat (length (join [newline] (map lower lines_2)))) # final_row),
            [Pages (Path old), Pages (Path latest), Words (Path old), Words (Path latest)])"
  using assms
  by (simp add: magic_main_def magic_try_def Let_def old_latest_paths)


lemma magic_main_pages_raise:
  assumes "isl (count_of_pages rd (Path old)) \<or>
           count_of_pages rd (Path old) = Inr n1 \<and> isl (count_of_pages rd (Path latest))"
  shows "fst (magic_main rd (Path old, Path latest) ks vc km) =
           Inr [Str old, Str latest, Str (replace (old @ latest) pdfs_share ''''),
                Str ''Error in reading'']"
  using assms
  by (auto simp: magic_main_def magic_try_def isl_def old_latest_paths)

lemma magic_main_words_raise:
  assumes "count_of_pages rd (Path old) = Inr n1" and "count_of_pages rd (Path latest) = Inr n2"
    and "n1 \<le> 200" and "n2 \<le> 200"
    and "isl (fitz_extract_all_words rd (Path old)) \<or>
         fitz_extract_all_words rd (Path old) = Inr lines_1 \<and>
         isl (fitz_extract_all_words rd (Path latest))"
  shows "fst (magic_main rd (Path old, Path latest) ks vc km) =
           Inr [Str old, Str latest, Str (replace (old @ latest) pdfs_share ''''),
                Str ''Error in reading'']"
  using assms
  by (auto simp: magic_main_def magic_try_def isl_def Let_def old_latest_paths)

text \<open>
  The body of the \<open>try\<close> raises whenever a link is an empty cell, since the count of its
  pages does; and \<open>magic_main\<close> lets an exception out exactly then.
\<close>

lemma magic_try_empty_raises:
  "fst links = Empty \<or> snd links = Empty \<Longrightarrow>
   isl (fst (magic_try rd links ks vc km))"
  by (cases links rule: join_links.cases)
     (auto simp: magic_try_def count_of_pages.simps split: sum.splits)

lemma magic_main_raises_iff:
  "isl (fst (magic_main rd links ks vc km)) \<longleftrightarrow> fst links = Empty \<or> snd links = Empty"
proof
  assume "isl (fst (magic_main rd links ks vc km))"
  then have "isl (old_latest links)"
    by (auto simp: magic_main_def split: prod.splits sum.splits)
  then show "fst links = Empty \<or> snd links = Empty" by (simp add: old_latest_isl)
next
  assume e: "fst links = Empty \<or> snd links = Empty"
  then have "isl (fst (magic_try rd links ks vc km))" by (rule magic_try_empty_raises)
  moreover from e have "isl (old_latest links)" by (simp add: old_latest_isl)
  ultimately show "isl (fst (magic_main rd links ks vc km))"
    by (auto simp: magic_main_def isl_def split: prod.splits sum.splits)
qed

lemma magic_main_empty_TypeError:
  "fst links = Empty \<or> snd links = Empty \<Longrightarrow>
   fst (magic_main rd links ks vc km) = Inl TypeError"
proof -
  assume e: "fst links = Empty \<or> snd links = Empty"
  then have "isl (fst (magic_try rd links ks vc km))" by (rule magic_try_empty_raises)
  moreover from e have "old_latest links = Inl TypeError"
    by (cases links rule: join_links.cases) (simp_all add: old_latest_def)
  ultimately show ?thesis
    by (auto simp: magic_main_def isl_def split: prod.splits sum.splits)
qed

section \<open>Facts about the batch loop\<close>

lemma collect_results_all:
  "\<forall>r\<in>set results. \<not> isl r \<Longrightarrow>
   collect_results results acc = (acc @ map projr results, None)"
proof (induction results arbitrary: acc)
  case Nil
  then show ?case by simp
next
  case (Cons r results)
  then show ?case by (cases r) simp_all
qed

lemma collect_results_first:
  "collect_results (map Inr rows @ Inl e # rest) acc = (acc @ rows, Some e)"
  by (induction rows arbitrary: acc) simp_all

lemma batch_loop_all:
  "\<forall>x\<in>set xs. \<not> isl (f x) \<Longrightarrow>
   batch_loop f xs i acc = (acc @ map (\<lambda>x. projr (f x)) (drop i xs), None)"
proof (induction f xs i acc rule: batch_loop.induct)
  case (1 f xs i acc)
  show ?case
  proof (cases "i < length xs")
    case True
    let ?slice = "take one_time_count (drop i xs)"
    have "\<forall>r\<in>set (map f ?slice). \<not> isl r"
      using "1.prems" by (auto dest: in_set_takeD in_set_dropD)
    then have c: "collect_results (map f ?slice) acc =
                  (acc @ map projr (map f ?slice), None)"
      by (rule collect_results_all)
    have "?slice @ drop (i + one_time_count) xs = drop i xs"
      by (metis add.commute append_take_drop_id drop_drop)
    then have "map (\<lambda>x. projr (f x)) ?slice @ map (\<lambda>x. projr (f x)) (drop (i + one_time_count) xs)
               = map (\<lambda>x. projr (f x)) (drop i xs)"
      by (metis map_append)
    with True c "1.IH" [OF True c [symmetric] refl "1.prems"] show ?thesis
      by (subst batch_loop.simps) (simp add: comp_def)
  next
    case False
    then show ?thesis by (subst batch_loop.simps) simp
  qed
qed

lemma map_all_Inr: "\<forall>x\<in>set xs. \<not> isl (f x) \<Longrightarrow> map f xs = map Inr (map (\<lambda>x. projr (f x)) xs)"
  by (induction xs) (auto simp: isl_def)

lemma batch_loop_first_raise:
  "\<forall>y\<in>set pre. \<not> isl (f y) \<Longrightarrow> f x = Inl e \<Longrightarrow> i \<le> length pre \<Longrightarrow>
   batch_loop f (pre @ x # post) i acc = (acc @ map (\<lambda>y. projr (f y)) (drop i pre), Some e)"
proof (induction f "pre @ x # post" i acc rule: batch_loop.induct)
  case (1 f i acc)
  let ?xs = "pre @ x # post"
  let ?slice = "take one_time_count (drop i ?xs)"
  note ok = "1.prems"(1) and bad = "1.prems"(2)
  from "1.prems" have lt: "i < length ?xs" by simp
  show ?case
  proof (cases "i + one_time_count \<le> length pre")
    case True
    then have slice: "?slice = take one_time_count (drop i pre)" by simp
    have "set (take one_time_count (drop i pre)) \<subseteq> set pre"
      by (meson set_take_subset set_drop_subset subset_trans)
    with ok have "\<forall>r\<in>set (map f ?slice). \<not> isl r"
      unfolding slice by auto
    then have c: "collect_results (map f ?slice) acc = (acc @ map projr (map f ?slice), None)"
      by (rule collect_results_all)
    have rows: "map projr (map f ?slice) = map (\<lambda>y. projr (f y)) (take one_time_count (drop i pre))"
      unfolding slice by simp
    have "take one_time_count (drop i pre) @ drop (i + one_time_count) pre = drop i pre"
      by (metis add.commute append_take_drop_id drop_drop)
    then have cat: "map (\<lambda>y. projr (f y)) (take one_time_count (drop i pre)) @
               map (\<lambda>y. projr (f y)) (drop (i + one_time_count) pre) =
               map (\<lambda>y. projr (f y)) (drop i pre)"
      by (metis map_append)
    have "batch_loop f ?xs i acc =
          batch_loop f ?xs (i + one_time_count) (acc @ map projr (map f ?slice))"
      by (subst batch_loop.simps) (simp only: lt c if_True prod.case option.case)
    also have "\<dots> = ((acc @ map projr (map f ?slice)) @
                       map (\<lambda>y. projr (f y)) (drop (i + one_time_count) pre), Some e)"
      by (rule "1.hyps" [OF lt c [symmetric] refl ok bad True])
    also have "\<dots> = (acc @ map (\<lambda>y. projr (f y)) (drop i pre), Some e)"
      by (simp only: rows append_assoc cat)
    finally show ?thesis .
  next
    case False
    with "1.prems" have "?slice = drop i pre @ x # take (one_time_count - Suc (length pre - i)) post"
      by (simp add: take_Cons' one_time_count_def)
    moreover have "map f (drop i pre) = map Inr (map (\<lambda>y. projr (f y)) (drop i pre))"
      using ok by (intro map_all_Inr) (auto dest: in_set_dropD)
    ultimately have "map f ?slice = map Inr (map (\<lambda>y. projr (f y)) (drop i pre)) @ Inl e #
                 map f (take (one_time_count - Suc (length pre - i)) post)"
      using bad by simp
    then have "collect_results (map f ?slice) acc = (acc @ map (\<lambda>y. projr (f y)) (drop i pre), Some e)"
      by (simp only: collect_results_first)
    with lt show ?thesis by (subst batch_loop.simps) simp
  qed
qed

text \<open>
  With no empty cell among the links every pair gets its row, in the order of the pairs;
  with one, the rows stop before the first such pair and the loop ends with its exception.
\<close>

lemma batch_results_all_paths:
  "\<forall>links\<in>set links_list. fst links \<noteq> Empty \<and> snd links \<noteq> Empty \<Longrightarrow>
   batch_results rd links_list ks vc km =
     (map (\<lambda>links. projr (fst (magic_main rd links ks vc km))) links_list, None)"
  unfolding batch_results_def
  by (subst batch_loop_all) (simp_all add: magic_main_raises_iff)

lemma batch_results_first_empty:
  "\<forall>links\<in>set pre. fst links \<noteq> Empty \<and> snd links \<noteq> Empty \<Longrightarrow>
   fst bad = Empty \<or> snd bad = Empty \<Longrightarrow>
   batch_results rd (pre @ bad # post) ks vc km =
     (map (\<lambda>links. projr (fst (magic_main rd links ks vc km))) pre, Some TypeError)"
  unfolding batch_results_def
  by (subst batch_loop_first_raise [where e = TypeError])
     (simp_all add: magic_main_raises_iff magic_main_empty_TypeError)

text \<open>
  When both links are paths, every step of the body that raises leads to the row "Error
  in reading": counting the pages of the first or of the second document; when neither
  count is above 200, extracting the text of the first or of the second document; and the
  search on either text, which raises exactly when some keyword that starts with an
  underscore has a rest that \<open>int\<close> rejects, or an index above the number of lines of
  the text, or at or below its negation.
\<close>

lemma magic_main_error_row_paths:
  assumes
    "isl (count_of_pages rd (Path old)) \<or>
     count_of_pages rd (Path old) = Inr n1 \<and> isl (count_of_pages rd (Path latest)) \<or>
     count_of_pages rd (Path old) = Inr n1 \<and> count_of_pages rd (Path latest) = Inr n2 \<and>
     n1 \<le> 200 \<and> n2 \<le> 200 \<and>
     (isl (fitz_extract_all_words rd (Path old)) \<or>
      fitz_extract_all_words rd (Path old) = Inr lines_1 \<and>
      isl (fitz_extract_all_words rd (Path latest)) \<or>
      fitz_extract_all_words rd (Path old) = Inr lines_1 \<and>
      fitz_extract_all_words rd (Path latest) = Inr lines_2 \<and>
      (\<exists>k\<in>set keywords. \<exists>text\<in>{join [newline] (map lower lines_1),
                                       join [newline] (map lower lines_2)}.
         startswith k ''_'' \<and>
         (case py_int (removeprefix k ''_'') of
            None \<Rightarrow> True
          | Some n \<Rightarrow> int (length (split text newline)) < n \<or>
                     n \<le> - int (length (split text newline)))))"
  shows "fst (magic_main rd (Path old, Path latest) keywords vendor_code keyword_mapping) =
           Inr ([Str old, Str latest, Str (replace (old @ latest) pdfs_share ''''), Str ''Error in reading''])"
proof -
  consider
    (pages) "isl (count_of_pages rd (Path old)) \<or>
             count_of_pages rd (Path old) = Inr n1 \<and> isl (count_of_pages rd (Path latest))"
  | (words) "count_of_pages rd (Path old) = Inr n1" "count_of_pages rd (Path latest) = Inr n2"
      "n1 \<le> 200" "n2 \<le> 200"
      "isl (fitz_extract_all_words rd (Path old)) \<or>
       fitz_extract_all_words rd (Path old) = Inr lines_1 \<and>
       isl (fitz_extract_all_words rd (Path latest))"
  | (search) "count_of_pages rd (Path old) = Inr n1" "count_of_pages rd (Path latest) = Inr n2"
      "n1 \<le> 200" "n2 \<le> 200"
      "fitz_extract_all_words rd (Path old) = Inr lines_1"
      "fitz_extract_all_words rd (Path latest) = Inr lines_2"
      "\<exists>k\<in>set keywords. \<exists>text\<in>{join [newline] (map lower lines_1),
                                       join [newline] (map lower lines_2)}.
         isl (keyword_matches k text)"
    using assms unfolding keyword_matches_isl by blast
  then show ?thesis
  proof cases
    case pages
    then show ?thesis by (rule magic_main_pages_raise)
  next
    case words
    then show ?thesis by (rule magic_main_words_raise)
  next
    case search
    from search(7) have "isl (search_for_words keywords (join [newline] (map lower lines_1))) \<or>
         isl (search_for_words keywords (join [newline] (map lower lines_2)))"
      unfolding search_for_words_isl by blast
    from magic_main_search_raises [OF search(1-6) this] show ?thesis by simp
  qed
qed

section \<open>The set comparator\<close>

text \<open>
  Claim C2, as the code has it: \<open>compare a b\<close> is true exactly when the two lists, each with
  every space character (the code point 32) removed from every element, are equal after
  sorting, that is, are equal as multisets. The comparison ignores the order of the
  elements and the spaces inside them, and nothing else: other whitespace and the case of
  the letters count.
\<close>

theorem compare_iff_space_free_multisets:
  "(compare a b \<longleftrightarrow>
      sort (map (filter (\<lambda>c. c \<noteq> CHR '' '')) a) = sort (map (filter (\<lambda>c. c \<noteq> CHR '' '')) b)) \<and>
   (compare a b \<longleftrightarrow>
      mset (map (filter (\<lambda>c. c \<noteq> CHR '' '')) a) = mset (map (filter (\<lambda>c. c \<noteq> CHR '' '')) b))"
  by (simp add: compare_iff_mset sort_eq_iff_mset)

text \<open>
  With all whitespace stripped, as the specification words it, the element \<open>a<TAB>b\<close>
  equals \<open>ab\<close>; \<open>compare\<close> tells them apart.
\<close>

theorem compare_tab_counterexample:
  "\<not> compare [[CHR ''a'', CHR 0x09, CHR ''b'']] [''ab''] \<and>
   spec_equal [[CHR ''a'', CHR 0x09, CHR ''b'']] [''ab'']"
  by code_simp

text \<open>
  Claim C9, as the code has it: \<open>compare\<close> is symmetric and reflexive, its result does not
  change when either list is permuted, and it does not change when space characters (the
  code point 32) are inserted into or removed from elements of either list: two strings
  differ by such spaces only when they are equal once the spaces are filtered out.
\<close>

theorem compare_symmetric_reflexive_invariant:
  "compare a b = compare b a \<and> compare a a \<and>
   (\<forall>a' b'. mset a' = mset a \<and> mset b' = mset b \<longrightarrow> compare a' b' = compare a b) \<and>
   (\<forall>a' b'. list_all2 (\<lambda>x y. filter (\<lambda>c. c \<noteq> CHR '' '') x = filter (\<lambda>c. c \<noteq> CHR '' '') y) a' a \<and>
            list_all2 (\<lambda>x y. filter (\<lambda>c. c \<noteq> CHR '' '') x = filter (\<lambda>c. c \<noteq> CHR '' '') y) b' b
            \<longrightarrow> compare a' b' = compare a b)"
proof (intro conjI allI impI)
  show "compare a b = compare b a" by (auto simp: compare_iff_mset)
  show "compare a a" by (simp add: compare_iff_mset)
next
  fix a' b' assume "mset a' = mset a \<and> mset b' = mset b"
  then have "mset (map (filter (\<lambda>c. c \<noteq> CHR '' '')) a') = mset (map (filter (\<lambda>c. c \<noteq> CHR '' '')) a)"
    and "mset (map (filter (\<lambda>c. c \<noteq> CHR '' '')) b') = mset (map (filter (\<lambda>c. c \<noteq> CHR '' '')) b)"
    by (metis mset_map)+
  then show "compare a' b' = compare a b" by (simp add: compare_iff_mset)
next
  fix a' b'
  assume "list_all2 (\<lambda>x y. filter (\<lambda>c. c \<noteq> CHR '' '') x = filter (\<lambda>c. c \<noteq> CHR '' '') y) a' a \<and>
          list_all2 (\<lambda>x y. filter (\<lambda>c. c \<noteq> CHR '' '') x = filter (\<lambda>c. c \<noteq> CHR '' '') y) b' b"
  then have "map (filter (\<lambda>c. c \<noteq> CHR '' '')) a' = map (filter (\<lambda>c. c \<noteq> CHR '' '')) a"
    and "map (filter (\<lambda>c. c \<noteq> CHR '' '')) b' = map (filter (\<lambda>c. c \<noteq> CHR '' '')) b"
    by (simp_all add: list_all2_map_eq)
  then show "compare a' b' = compare a b" by (simp add: compare_iff_mset)
qed

text \<open>
  The lists \<open>["a b", "c"]\<close> and \<open>["c", "ab"]\<close> compare equal, and still do with the first
  permuted, the second permuted, and spaces moved inside the elements.
\<close>

theorem compare_symmetric_reflexive_invariant_witness:
  "mset [''c'', ''a b''] = mset [''a b'', ''c''] \<and> mset [''ab'', ''c''] = mset [''c'', ''ab''] \<and>
   compare [''c'', ''a b''] [''ab'', ''c''] = compare [''a b'', ''c''] [''c'', ''ab''] \<and>
   list_all2 (\<lambda>x y. filter (\<lambda>c. c \<noteq> CHR '' '') x = filter (\<lambda>c. c \<noteq> CHR '' '') y)
     [''ab'', '' c ''] [''a b'', ''c''] \<and>
   list_all2 (\<lambda>x y. filter (\<lambda>c. c \<noteq> CHR '' '') x = filter (\<lambda>c. c \<noteq> CHR '' '') y)
     [''c'', ''a  b''] [''c'', ''ab''] \<and>
   compare [''ab'', '' c ''] [''c'', ''a  b''] = compare [''a b'', ''c''] [''c'', ''ab''] \<and>
   compare [''a b'', ''c''] [''c'', ''ab'']"
proof -
  have p: "mset [''c'', ''a b''] = mset [''a b'', ''c''] \<and> mset [''ab'', ''c''] = mset [''c'', ''ab'']"
    by simp
  have w: "list_all2 (\<lambda>x y. filter (\<lambda>c. c \<noteq> CHR '' '') x = filter (\<lambda>c. c \<noteq> CHR '' '') y)
             [''ab'', '' c ''] [''a b'', ''c''] \<and>
           list_all2 (\<lambda>x y. filter (\<lambda>c. c \<noteq> CHR '' '') x = filter (\<lambda>c. c \<noteq> CHR '' '') y)
             [''c'', ''a  b''] [''c'', ''ab'']"
    by simp
  have e: "compare [''a b'', ''c''] [''c'', ''ab'']"
    by code_simp
  note t = compare_symmetric_reflexive_invariant [of "[''a b'', ''c'']" "[''c'', ''ab'']"]
  from t p have "compare [''c'', ''a b''] [''ab'', ''c''] = compare [''a b'', ''c''] [''c'', ''ab'']"
    by blast
  moreover from t w
  have "compare [''ab'', '' c ''] [''c'', ''a  b''] = compare [''a b'', ''c''] [''c'', ''ab'']"
    by blast
  ultimately show ?thesis using p w e by blast
qed

text \<open>
  A tab is whitespace, and \<open>a<TAB>b\<close> is \<open>ab\<close> with a tab inserted; the insertion turns
  an equal comparison into an unequal one.
\<close>

theorem compare_symmetric_reflexive_invariant_counterexample:
  "isspace (CHR 0x09) \<and>
   strip_all_whitespace [CHR ''a'', CHR 0x09, CHR ''b''] = strip_all_whitespace ''ab'' \<and>
   compare [''ab''] [''ab''] \<and> \<not> compare [[CHR ''a'', CHR 0x09, CHR ''b'']] [''ab'']"
  by code_simp

section \<open>The keyword matcher\<close>

text \<open>
  Claim C3, as the code has it: when \<open>search_for_words\<close> returns, its result has an entry,
  never empty, under the stripped form of every keyword of the list. For a keyword that
  does not start with an underscore and is the only keyword of the list with its stripped
  form, the entry is the stripped form of every line whose lowercased, stripped form
  contains the keyword's lowercased, stripped form as a substring, in the order of the
  document and with repetitions kept; when no line matches, the entry is the list of one
  empty string. Keywords with the same stripped form share one entry, which accumulates
  the matches of each of them: no keyword of the list raised, the entry under the stripped
  form of a keyword is the matches of all the keywords of the list with that stripped
  form, one keyword after the other in the order of the list, and the matches of a keyword
  that does not start with an underscore are its lines or, when there is none, the one
  empty string.
\<close>

theorem search_for_words_entries:
  assumes "search_for_words keywords text = Inr matches_by_word"
  shows "(\<forall>k\<in>set keywords. \<exists>entry. matches_by_word (strip k) = Some entry \<and> entry \<noteq> []) \<and>
         (\<forall>k\<in>set keywords.
            \<not> startswith k ''_'' \<and> filter (\<lambda>k'. strip k' = strip k) keywords = [k] \<longrightarrow>
            matches_by_word (strip k) =
              Some (let found = map strip (filter (\<lambda>line. sublist (lower (strip k)) (lower (strip line)))
                                     (split text newline))
                    in if found = [] then [''''] else found)) \<and>
         (\<forall>k\<in>set keywords. \<not> isl (keyword_matches k text)) \<and>
         (\<forall>k\<in>set keywords.
            matches_by_word (strip k) =
              Some (concat (map (\<lambda>k'. projr (keyword_matches k' text))
                              (filter (\<lambda>k'. strip k' = strip k) keywords)))) \<and>
         (\<forall>k\<in>set keywords.
            \<not> startswith k ''_'' \<longrightarrow>
            keyword_matches k text =
              Inr (let found = map strip (filter (\<lambda>line. sublist (lower (strip k)) (lower (strip line)))
                                    (split text newline))
                   in if found = [] then [''''] else found))"
proof (intro conjI ballI impI)
  fix k assume k: "k \<in> set keywords"
  from search_loop_succeeds [OF assms [unfolded search_for_words_def] k]
  obtain ms where ms: "keyword_matches k text = Inr ms" by blast
  then have "ms \<noteq> []" by (rule keyword_matches_not_Nil)
  moreover have "k \<in> set (filter (\<lambda>k'. strip k' = strip k) keywords)" using k by simp
  ultimately have "concat (map (\<lambda>k. projr (keyword_matches k text)) (filter (\<lambda>k'. strip k' = strip k) keywords)) \<noteq> []"
    using ms by (metis (no_types, lifting) concat_eq_Nil_conv image_eqI list.set_map sum.sel(2))
  with search_for_words_entry [OF assms k]
  show "\<exists>entry. matches_by_word (strip k) = Some entry \<and> entry \<noteq> []" by blast
next
  fix k assume k: "k \<in> set keywords"
    and h: "\<not> startswith k ''_'' \<and> filter (\<lambda>k'. strip k' = strip k) keywords = [k]"
  from h search_for_words_entry [OF assms k]
  show "matches_by_word (strip k) =
              Some (let found = map strip (filter (\<lambda>line. sublist (lower (strip k)) (lower (strip line)))
                                     (split text newline))
                    in if found = [] then [''''] else found)"
    by (simp add: keyword_matches_def contains_iff_sublist)
next
  fix k assume k: "k \<in> set keywords"
  from search_loop_succeeds [OF assms [unfolded search_for_words_def] k]
  show "\<not> isl (keyword_matches k text)" by auto
next
  fix k assume k: "k \<in> set keywords"
  from search_for_words_entry [OF assms k]
  show "matches_by_word (strip k) =
          Some (concat (map (\<lambda>k'. projr (keyword_matches k' text))
                          (filter (\<lambda>k'. strip k' = strip k) keywords)))" .
next
  fix k assume "\<not> startswith k ''_''"
  then show "keyword_matches k text =
          Inr (let found = map strip (filter (\<lambda>line. sublist (lower (strip k)) (lower (strip line)))
                                (split text newline))
               in if found = [] then [''''] else found)"
    by (simp add: keyword_matches_def contains_iff_sublist)
qed

text \<open>
  A document of three lines, searched for \<open>Volt\<close> (two lines match, whatever their case
  and the blanks around them) and for \<open>zz\<close> (no line matches); and the same document
  searched for \<open>volt\<close>, for \<open>volt\<close> followed by a blank and for \<open>zz\<close>: the first two share
  the entry \<open>volt\<close>, which holds the two matching lines twice.
\<close>

theorem search_for_words_entries_witness:
  "\<not> isl (search_for_words [''Volt '', ''zz'']
            (''Voltage: 5V'' @ [newline] @ ''  x '' @ [newline] @ ''max VOLTAGE 9 '')) \<and>
   \<not> startswith ''Volt '' ''_'' \<and> \<not> startswith ''zz'' ''_'' \<and>
   filter (\<lambda>k'. strip k' = strip ''Volt '') [''Volt '', ''zz''] = [''Volt ''] \<and>
   filter (\<lambda>k'. strip k' = strip ''zz'') [''Volt '', ''zz''] = [''zz''] \<and>
   projr (search_for_words [''Volt '', ''zz'']
            (''Voltage: 5V'' @ [newline] @ ''  x '' @ [newline] @ ''max VOLTAGE 9 '')) ''Volt''
     = Some [''Voltage: 5V'', ''max VOLTAGE 9''] \<and>
   projr (search_for_words [''Volt '', ''zz'']
            (''Voltage: 5V'' @ [newline] @ ''  x '' @ [newline] @ ''max VOLTAGE 9 '')) ''zz''
     = Some [''''] \<and>
   \<not> isl (search_for_words [''volt'', ''volt '', ''zz'']
            (''Voltage: 5V'' @ [newline] @ ''  x '' @ [newline] @ ''max VOLTAGE 9 '')) \<and>
   ''volt '' \<in> set [''volt'', ''volt '', ''zz''] \<and>
   filter (\<lambda>k'. strip k' = strip ''volt '') [''volt'', ''volt '', ''zz''] = [''volt'', ''volt ''] \<and>
   projr (search_for_words [''volt'', ''volt '', ''zz'']
            (''Voltage: 5V'' @ [newline] @ ''  x '' @ [newline] @ ''max VOLTAGE 9 '')) ''volt''
     = Some [''Voltage: 5V'', ''max VOLTAGE 9'', ''Voltage: 5V'', ''max VOLTAGE 9'']"
proof -
  define body where "body = ''Voltage: 5V'' @ [newline] @ ''  x '' @ [newline] @ ''max VOLTAGE 9 ''"
  define m where "m = projr (search_for_words [''Volt '', ''zz''] body)"
  define m' where "m' = projr (search_for_words [''volt'', ''volt '', ''zz''] body)"
  have ok: "\<not> isl (search_for_words [''Volt '', ''zz''] body)"
    unfolding body_def by code_simp
  then have run: "search_for_words [''Volt '', ''zz''] body = Inr m"
    by (simp add: m_def)
  have h1: "\<not> startswith ''Volt '' ''_'' \<and> filter (\<lambda>k'. strip k' = strip ''Volt '') [''Volt '', ''zz''] = [''Volt '']"
    by code_simp
  have h2: "\<not> startswith ''zz'' ''_'' \<and> filter (\<lambda>k'. strip k' = strip ''zz'') [''Volt '', ''zz''] = [''zz'']"
    by code_simp
  have s1: "strip ''Volt '' = ''Volt''" and s2: "strip ''zz'' = ''zz''"
    by code_simp+
  have v1: "(let found = map strip (filter (\<lambda>line. sublist (lower (strip ''Volt '')) (lower (strip line)))
                                     (split body newline))
             in if found = [] then [''''] else found) = [''Voltage: 5V'', ''max VOLTAGE 9'']"
    unfolding body_def by code_simp
  have v2: "(let found = map strip (filter (\<lambda>line. sublist (lower (strip ''zz'')) (lower (strip line)))
                                     (split body newline))
             in if found = [] then [''''] else found) = ['''']"
    unfolding body_def by code_simp
  from search_for_words_entries [OF run] h1 have "m (strip ''Volt '') =
       Some (let found = map strip (filter (\<lambda>line. sublist (lower (strip ''Volt '')) (lower (strip line)))
                                     (split body newline))
             in if found = [] then [''''] else found)"
    by simp
  with v1 s1 have e1: "m ''Volt'' = Some [''Voltage: 5V'', ''max VOLTAGE 9'']" by simp
  from search_for_words_entries [OF run] h2 have "m (strip ''zz'') =
       Some (let found = map strip (filter (\<lambda>line. sublist (lower (strip ''zz'')) (lower (strip line)))
                                     (split body newline))
             in if found = [] then [''''] else found)"
    by simp
  with v2 s2 have e2: "m ''zz'' = Some ['''']" by simp
  have ok': "\<not> isl (search_for_words [''volt'', ''volt '', ''zz''] body)"
    unfolding body_def by code_simp
  then have run': "search_for_words [''volt'', ''volt '', ''zz''] body = Inr m'"
    by (simp add: m'_def)
  have k3: "''volt '' \<in> set [''volt'', ''volt '', ''zz'']" by simp
  have f3: "filter (\<lambda>k'. strip k' = strip ''volt '') [''volt'', ''volt '', ''zz''] = [''volt'', ''volt '']"
    by code_simp
  have s3: "strip ''volt '' = ''volt''" by code_simp
  have v3: "concat (map (\<lambda>k'. projr (keyword_matches k' body))
                      (filter (\<lambda>k'. strip k' = strip ''volt '') [''volt'', ''volt '', ''zz''])) =
            [''Voltage: 5V'', ''max VOLTAGE 9'', ''Voltage: 5V'', ''max VOLTAGE 9'']"
    unfolding body_def by code_simp
  from search_for_words_entries [OF run']
  have "\<forall>k\<in>set [''volt'', ''volt '', ''zz''].
          m' (strip k) = Some (concat (map (\<lambda>k'. projr (keyword_matches k' body))
                                          (filter (\<lambda>k'. strip k' = strip k) [''volt'', ''volt '', ''zz''])))"
    by (elim conjE)
  from bspec [OF this k3]
  have "m' (strip ''volt '') =
          Some (concat (map (\<lambda>k'. projr (keyword_matches k' body))
                          (filter (\<lambda>k'. strip k' = strip ''volt '') [''volt'', ''volt '', ''zz''])))" .
  then have "m' (strip ''volt '') =
          Some [''Voltage: 5V'', ''max VOLTAGE 9'', ''Voltage: 5V'', ''max VOLTAGE 9'']"
    by (simp only: v3)
  then have e3: "m' ''volt'' = Some [''Voltage: 5V'', ''max VOLTAGE 9'', ''Voltage: 5V'', ''max VOLTAGE 9'']"
    by (simp only: s3)
  from ok h1 h2 e1 e2 ok' k3 f3 e3 show ?thesis unfolding m_def m'_def body_def by blast
qed

text \<open>
  A keyword listed twice and found on no line: the entry has two empty strings, not one.
\<close>

theorem search_for_words_duplicate_counterexample:
  "\<not> isl (search_for_words [''a'', ''a''] ''b'') \<and>
   projr (search_for_words [''a'', ''a''] ''b'') ''a'' = Some ['''', '''']"
  by code_simp

text \<open>
  Claim C8, as the code has it: let a keyword of the list start with an underscore and let
  the rest of it be read by \<open>int\<close> as \<open>n\<close>. When the search returns and no other keyword
  of the list has the same stripped form, the keyword's entry is exactly one line of the
  split text, whatever the line contains: the line at index \<open>n - 1\<close> when \<open>n\<close> is
  between 1 and the number of lines, and the line at index \<open>n - 1\<close> counted from the end
  when \<open>n\<close> is zero or negative. When \<open>n\<close> is above the number of lines, or at or below
  its negation, the search raises, and a pair evaluation that got that far returns the row
  "Error in reading".
\<close>

theorem positional_keyword_selects_line:
  assumes "k \<in> set keywords" and "startswith k ''_''"
    and "py_int (removeprefix k ''_'') = Some n"
  shows
    "(search_for_words keywords text = Inr m \<and> filter (\<lambda>k'. strip k' = strip k) keywords = [k] \<longrightarrow>
        (1 \<le> n \<and> n \<le> int (length (split text newline)) \<longrightarrow>
           m (strip k) = Some [split text newline ! nat (n - 1)]) \<and>
        (n \<le> 0 \<longrightarrow>
           m (strip k) = Some [split text newline ! nat (int (length (split text newline)) + n - 1)])) \<and>
     (int (length (split text newline)) < n \<or> n \<le> - int (length (split text newline)) \<longrightarrow>
        isl (search_for_words keywords text)) \<and>
     (count_of_pages rd (Path old) = Inr n1 \<and> count_of_pages rd (Path latest) = Inr n2 \<and>
      n1 \<le> 200 \<and> n2 \<le> 200 \<and>
      fitz_extract_all_words rd (Path old) = Inr lines_1 \<and>
      fitz_extract_all_words rd (Path latest) = Inr lines_2 \<and>
      (text = join [newline] (map lower lines_1) \<or> text = join [newline] (map lower lines_2)) \<and>
      (int (length (split text newline)) < n \<or> n \<le> - int (length (split text newline))) \<longrightarrow>
        fst (magic_main rd (Path old, Path latest) keywords vendor_code keyword_mapping) =
          Inr ([Str old, Str latest, Str (replace (old @ latest) pdfs_share ''''), Str ''Error in reading'']))"
proof -
  let ?lines = "split text newline"
  note km = keyword_matches_positional [OF assms(2,3), of "text"]
  have raises: "isl (search_for_words keywords text)"
    if "int (length ?lines) < n \<or> n \<le> - int (length ?lines)"
  proof -
    from that have "index ?lines (n - 1) = Inl IndexError"
      by (intro index_out_of_range) auto
    with km have "isl (keyword_matches k text)" by simp
    with assms(1) show ?thesis unfolding search_for_words_isl by blast
  qed
  have entry: "m (strip k) = Some (projr (keyword_matches k text))"
    if "search_for_words keywords text = Inr m" and "filter (\<lambda>k'. strip k' = strip k) keywords = [k]"
    using search_for_words_entry [OF that(1) assms(1)] that(2) by simp
  have inside: "m (strip k) = Some [?lines ! nat (n - 1)]"
    if "search_for_words keywords text = Inr m" and "filter (\<lambda>k'. strip k' = strip k) keywords = [k]"
      and "1 \<le> n \<and> n \<le> int (length ?lines)"
  proof -
    from that(3) have "index ?lines (n - 1) = Inr (?lines ! nat (n - 1))"
      by (intro index_in_range) auto
    with km entry [OF that(1,2)] show ?thesis by simp
  qed
  have from_end: "m (strip k) = Some [?lines ! nat (int (length ?lines) + n - 1)]"
    if run: "search_for_words keywords text = Inr m"
      and one: "filter (\<lambda>k'. strip k' = strip k) keywords = [k]" and "n \<le> 0"
  proof -
    from run have "\<not> isl (search_for_words keywords text)" by simp
    with raises have "- int (length ?lines) < n" by force
    with \<open>n \<le> 0\<close> have "index ?lines (n - 1) = Inr (?lines ! nat (int (length ?lines) + (n - 1)))"
      by (intro index_from_end) auto
    with km entry [OF run one] show ?thesis by (simp add: algebra_simps)
  qed
  have guard: "fst (magic_main rd (Path old, Path latest) keywords vendor_code keyword_mapping) =
          Inr ([Str old, Str latest, Str (replace (old @ latest) pdfs_share ''''), Str ''Error in reading''])"
    if "count_of_pages rd (Path old) = Inr n1 \<and> count_of_pages rd (Path latest) = Inr n2 \<and>
      n1 \<le> 200 \<and> n2 \<le> 200 \<and>
      fitz_extract_all_words rd (Path old) = Inr lines_1 \<and>
      fitz_extract_all_words rd (Path latest) = Inr lines_2 \<and>
      (text = join [newline] (map lower lines_1) \<or> text = join [newline] (map lower lines_2)) \<and>
      (int (length ?lines) < n \<or> n \<le> - int (length ?lines))"
  proof -
    from that raises have "isl (search_for_words keywords text)" by blast
    with that have "isl (search_for_words keywords (join [newline] (map lower lines_1))) \<or>
         isl (search_for_words keywords (join [newline] (map lower lines_2)))" by blast
    with that magic_main_search_raises [of rd old n1 latest n2 lines_1 lines_2 "keywords" vendor_code keyword_mapping]
    show ?thesis by simp
  qed
  from inside from_end raises guard show ?thesis by blast
qed

text \<open>
  On the two lines of \<open>old.pdf\<close>, lowercased: \<open>_2\<close> selects the second line, and \<open>_3\<close>
  raises, so that the pair gets the row "Error in reading".
\<close>

theorem positional_keyword_selects_line_witness:
  "''_2'' \<in> set [''_2''] \<and> startswith ''_2'' ''_'' \<and> py_int (removeprefix ''_2'' ''_'') = Some 2 \<and>
   filter (\<lambda>k'. strip k' = strip ''_2'') [''_2''] = [''_2''] \<and>
   (1::int) \<le> 2 \<and> 2 \<le> int (length (split (''voltage: 5v'' @ [newline] @ ''current: 1a'') newline)) \<and>
   \<not> isl (search_for_words [''_2''] (''voltage: 5v'' @ [newline] @ ''current: 1a'')) \<and>
   projr (search_for_words [''_2''] (''voltage: 5v'' @ [newline] @ ''current: 1a'')) ''_2''
     = Some [''current: 1a''] \<and>
   ''_3'' \<in> set [''_3''] \<and> startswith ''_3'' ''_'' \<and> py_int (removeprefix ''_3'' ''_'') = Some 3 \<and>
   int (length (split (''voltage: 5v'' @ [newline] @ ''current: 1a'') newline)) < 3 \<and>
   isl (search_for_words [''_3''] (''voltage: 5v'' @ [newline] @ ''current: 1a'')) \<and>
   fst (magic_main sample_reader (Path ''old.pdf'', Path ''new.pdf'') [''_3''] ''V'' []) =
     Inr ([Str ''old.pdf'', Str ''new.pdf'', Str ''old.pdfnew.pdf'', Str ''Error in reading''])"
proof -
  define body where "body = ''voltage: 5v'' @ [newline] @ ''current: 1a''"
  define m where "m = projr (search_for_words [''_2''] body)"
  have a2: "''_2'' \<in> set [''_2'']" "startswith ''_2'' ''_''" "py_int (removeprefix ''_2'' ''_'') = Some 2"
    by code_simp+
  have a3: "''_3'' \<in> set [''_3'']" "startswith ''_3'' ''_''" "py_int (removeprefix ''_3'' ''_'') = Some 3"
    by code_simp+
  have one: "filter (\<lambda>k'. strip k' = strip ''_2'') [''_2''] = [''_2'']" by simp
  have len: "length (split body newline) = 2" unfolding body_def by code_simp
  have line: "split body newline ! nat (2 - 1) = ''current: 1a''" unfolding body_def by code_simp
  have s2: "strip ''_2'' = ''_2''" by code_simp
  have ok: "\<not> isl (search_for_words [''_2''] body)" unfolding body_def by code_simp
  then have run: "search_for_words [''_2''] body = Inr m" by (simp add: m_def)
  from positional_keyword_selects_line [OF a2, of body m] run one len
  have "m (strip ''_2'') = Some [split body newline ! nat (2 - 1)]" by simp
  with line s2 have e: "m ''_2'' = Some [''current: 1a'']" by simp
  have rd: "count_of_pages sample_reader (Path ''old.pdf'') = Inr 2 \<and>
            count_of_pages sample_reader (Path ''new.pdf'') = Inr 2 \<and>
            fitz_extract_all_words sample_reader (Path ''old.pdf'') = Inr [''Voltage: 5V'', ''Current: 1A''] \<and>
            fitz_extract_all_words sample_reader (Path ''new.pdf'') = Inr [''Voltage: 3V'', ''Current: 2A'']"
    by code_simp
  have t1: "body = join [newline] (map lower [''Voltage: 5V'', ''Current: 1A''])"
    unfolding body_def by code_simp
  have ol: "replace (''old.pdf'' @ ''new.pdf'') pdfs_share '''' = ''old.pdfnew.pdf''" by code_simp
  note t = positional_keyword_selects_line [OF a3, of body _ sample_reader "''old.pdf''" 2 "''new.pdf''" 2
              "[''Voltage: 5V'', ''Current: 1A'']" "[''Voltage: 3V'', ''Current: 2A'']" "''V''" "[]"]
  from t len have r: "isl (search_for_words [''_3''] body)" by simp
  from t len rd t1
  have "fst (magic_main sample_reader (Path ''old.pdf'', Path ''new.pdf'') [''_3''] ''V'' []) =
          Inr ([Str ''old.pdf'', Str ''new.pdf'',
           Str (replace (''old.pdf'' @ ''new.pdf'') pdfs_share ''''), Str ''Error in reading''])"
    by simp
  with ol have g: "fst (magic_main sample_reader (Path ''old.pdf'', Path ''new.pdf'') [''_3''] ''V'' []) =
     Inr ([Str ''old.pdf'', Str ''new.pdf'', Str ''old.pdfnew.pdf'', Str ''Error in reading''])"
    by simp
  from a2 a3 one len ok e r g show ?thesis unfolding m_def body_def by simp
qed

text \<open>
  The index 0 is not an index counted from 1, and yet \<open>_0\<close> on a text of one line is no
  error: the entry is that line.
\<close>

theorem positional_keyword_zero_counterexample:
  "startswith ''_0'' ''_'' \<and> py_int (removeprefix ''_0'' ''_'') = Some 0 \<and>
   length (split ''a'' newline) = 1 \<and>
   \<not> isl (search_for_words [''_0''] ''a'') \<and>
   projr (search_for_words [''_0''] ''a'') ''_0'' = Some [''a'']"
  by code_simp

text \<open>
  Claim C10: for the keyword \<open>_0\<close> and every text, empty or not, the matcher does not
  raise: the index is \<open>0 - 1\<close>, which Python counts from the end, so that the matches of
  the keyword are the last line of the split text alone, and a search for the one keyword
  \<open>_0\<close> returns the dictionary with that entry. Both source files define the matcher
  with the same text.
\<close>

theorem underscore_zero_selects_last_line:
  "keyword_matches ''_0'' text = Inr [last (split text newline)] \<and>
   search_for_words [''_0''] text = Inr [''_0'' \<mapsto> [last (split text newline)]]"
proof -
  have p: "startswith ''_0'' ''_''" and i: "py_int (removeprefix ''_0'' ''_'') = Some 0"
    and s: "strip ''_0'' = ''_0''"
    by code_simp+
  have "index (split text newline) (0 - 1) = Inr (last (split text newline))"
    using split_not_Nil [of "text" newline]
    by (simp add: index_def last_conv_nth nat_diff_distrib' Suc_leI)
  with keyword_matches_positional [OF p i, of "text"]
  have k: "keyword_matches ''_0'' text = Inr [last (split text newline)]" by simp
  have "[''_0'' \<mapsto> [] @ [last (split text newline)]] = ([''_0'' \<mapsto> [last (split text newline)]] :: string \<rightharpoonup> string list)"
    by simp
  with k s show ?thesis by (simp add: search_for_words_def)
qed

section \<open>The pair evaluator\<close>

text \<open>
  Claim C1, as the code has it: when both page counts are read and neither is above 200,
  both texts are extracted and the search returns on both, the row of the pair is: the two
  paths, their concatenation without the share name, the vendor code, the two text
  lengths, the change flag, the changed keywords, the mapped features, and three cells for
  each keyword in the order of the keyword list. The change flag is "Yes" if the two
  entries of some keyword compare unequal and "No" otherwise. The changed keywords are the
  stripped keywords whose entries compare unequal, in the order of the keyword list (they
  are not sorted), joined by a comma and a space.
\<close>

theorem magic_main_result_row:
  assumes "count_of_pages rd (Path old) = Inr n1" and "count_of_pages rd (Path latest) = Inr n2"
    and "n1 \<le> 200" and "n2 \<le> 200"
    and "fitz_extract_all_words rd (Path old) = Inr lines_1"
    and "fitz_extract_all_words rd (Path latest) = Inr lines_2"
    and "search_for_words keywords (join [newline] (map lower lines_1)) = Inr m1"
    and "search_for_words keywords (join [newline] (map lower lines_2)) = Inr m2"
  shows "fst (magic_main rd (Path old, Path latest) keywords vendor_code keyword_mapping) =
     Inr ([Str old, Str latest, Str (replace (old @ latest) pdfs_share ''''), Str vendor_code,
      Str (str_nat (length (join [newline] (map lower lines_1)))),
      Str (str_nat (length (join [newline] (map lower lines_2)))),
      Str (if (\<exists>k\<in>set keywords. \<not> compare (the (m1 (strip k))) (the (m2 (strip k))))
           then ''Yes'' else ''No''),
      Str (join '', '' (map strip
             (filter (\<lambda>k. \<not> compare (the (m1 (strip k))) (the (m2 (strip k)))) keywords))),
      Str (join '', '' (sort (remdups (map (map_feature keyword_mapping) (map strip
             (filter (\<lambda>k. \<not> compare (the (m1 (strip k))) (the (m2 (strip k)))) keywords))))))]
     @ concat (map (\<lambda>k. [Str (join ''|'' (the (m1 (strip k)))),
                          Str (join ''|'' (the (m2 (strip k)))),
                          Bool (compare (the (m1 (strip k))) (the (m2 (strip k))))]) keywords))"
proof -
  have "\<forall>k\<in>set keywords. m1 (strip k) \<noteq> None \<and> m2 (strip k) \<noteq> None"
    using search_for_words_has_keys [OF assms(7)] search_for_words_has_keys [OF assms(8)]
    by simp
  from magic_main_normal_row [OF assms compare_and_mapping_row [OF this]]
  show ?thesis by simp
qed

text \<open>
  The keyword \<open>voltage\<close> on \<open>old.pdf\<close> and its copy: "No" and no changed keyword. On
  \<open>old.pdf\<close> and \<open>new.pdf\<close>, where 5V became 3V: "Yes" and the keyword.
\<close>

theorem magic_main_result_row_witness:
  "count_of_pages sample_reader (Path ''old.pdf'') = Inr 2 \<and>
   count_of_pages sample_reader (Path ''copy.pdf'') = Inr 2 \<and>
   count_of_pages sample_reader (Path ''new.pdf'') = Inr 2 \<and> (2::int) \<le> 200 \<and>
   fitz_extract_all_words sample_reader (Path ''old.pdf'') = Inr [''Voltage: 5V'', ''Current: 1A''] \<and>
   fitz_extract_all_words sample_reader (Path ''copy.pdf'') = Inr [''Voltage: 5V'', ''Current: 1A''] \<and>
   fitz_extract_all_words sample_reader (Path ''new.pdf'') = Inr [''Voltage: 3V'', ''Current: 2A''] \<and>
   \<not> isl (search_for_words [''voltage''] (join [newline] (map lower [''Voltage: 5V'', ''Current: 1A'']))) \<and>
   \<not> isl (search_for_words [''voltage''] (join [newline] (map lower [''Voltage: 3V'', ''Current: 2A'']))) \<and>
   fst (magic_main sample_reader (Path ''old.pdf'', Path ''copy.pdf'') [''voltage''] ''V'' []) =
     Inr ([Str ''old.pdf'', Str ''copy.pdf'', Str ''old.pdfcopy.pdf'', Str ''V'', Str ''23'', Str ''23'',
      Str ''No'', Str '''', Str '''', Str ''voltage: 5v'', Str ''voltage: 5v'', Bool True]) \<and>
   fst (magic_main sample_reader (Path ''old.pdf'', Path ''new.pdf'') [''voltage''] ''V'' []) =
     Inr ([Str ''old.pdf'', Str ''new.pdf'', Str ''old.pdfnew.pdf'', Str ''V'', Str ''23'', Str ''23'',
      Str ''Yes'', Str ''voltage'', Str ''voltage'', Str ''voltage: 5v'', Str ''voltage: 3v'', Bool False])"
proof -
  let ?old = "[''Voltage: 5V'', ''Current: 1A'']" and ?new = "[''Voltage: 3V'', ''Current: 2A'']"
  let ?m1 = "projr (search_for_words [''voltage''] (join [newline] (map lower ?old)))"
  let ?m2 = "projr (search_for_words [''voltage''] (join [newline] (map lower ?new)))"
  have p: "count_of_pages sample_reader (Path ''old.pdf'') = Inr 2"
    "count_of_pages sample_reader (Path ''copy.pdf'') = Inr 2"
    "count_of_pages sample_reader (Path ''new.pdf'') = Inr 2"
    by code_simp+
  have w: "fitz_extract_all_words sample_reader (Path ''old.pdf'') = Inr ?old"
    "fitz_extract_all_words sample_reader (Path ''copy.pdf'') = Inr ?old"
    "fitz_extract_all_words sample_reader (Path ''new.pdf'') = Inr ?new"
    by code_simp+
  have ok1: "\<not> isl (search_for_words [''voltage''] (join [newline] (map lower ?old)))"
    by code_simp
  have ok2: "\<not> isl (search_for_words [''voltage''] (join [newline] (map lower ?new)))"
    by code_simp
  have s1: "search_for_words [''voltage''] (join [newline] (map lower ?old)) = Inr ?m1"
    using ok1 by simp
  have s2: "search_for_words [''voltage''] (join [newline] (map lower ?new)) = Inr ?m2"
    using ok2 by simp
  have le: "(2::int) \<le> 200" by simp
  note a1 = p(1) and a2 = p(2) and a3 = p(3)
  note b1 = w(1) and b2 = w(2) and b3 = w(3)
  have "fst (magic_main sample_reader (Path ''old.pdf'', Path ''copy.pdf'') [''voltage''] ''V'' []) =
     Inr ([Str ''old.pdf'', Str ''copy.pdf'', Str ''old.pdfcopy.pdf'', Str ''V'', Str ''23'', Str ''23'',
      Str ''No'', Str '''', Str '''', Str ''voltage: 5v'', Str ''voltage: 5v'', Bool True])"
    (is "?row = ?explicit")
  proof -
    have "?row = Inr ([Str ''old.pdf'', Str ''copy.pdf'',
      Str (replace (''old.pdf'' @ ''copy.pdf'') pdfs_share ''''), Str ''V'',
      Str (str_nat (length (join [newline] (map lower ?old)))),
      Str (str_nat (length (join [newline] (map lower ?old)))),
      Str (if (\<exists>k\<in>set [''voltage'']. \<not> compare (the (?m1 (strip k))) (the (?m1 (strip k))))
           then ''Yes'' else ''No''),
      Str (join '', '' (map strip
             (filter (\<lambda>k. \<not> compare (the (?m1 (strip k))) (the (?m1 (strip k)))) [''voltage'']))),
      Str (join '', '' (sort (remdups (map (map_feature []) (map strip
             (filter (\<lambda>k. \<not> compare (the (?m1 (strip k))) (the (?m1 (strip k)))) [''voltage''])))))) ]
     @ concat (map (\<lambda>k. [Str (join ''|'' (the (?m1 (strip k)))),
                          Str (join ''|'' (the (?m1 (strip k)))),
                          Bool (compare (the (?m1 (strip k))) (the (?m1 (strip k))))]) [''voltage'']))"
      by (rule magic_main_result_row [OF a1 a2 le le b1 b2 s1 s1])
    also have "\<dots> = ?explicit" by code_simp
    finally show ?thesis .
  qed
  moreover
  have "fst (magic_main sample_reader (Path ''old.pdf'', Path ''new.pdf'') [''voltage''] ''V'' []) =
     Inr ([Str ''old.pdf'', Str ''new.pdf'', Str ''old.pdfnew.pdf'', Str ''V'', Str ''23'', Str ''23'',
      Str ''Yes'', Str ''voltage'', Str ''voltage'', Str ''voltage: 5v'', Str ''voltage: 3v'', Bool False])"
    (is "?row = ?explicit")
  proof -
    have "?row = Inr ([Str ''old.pdf'', Str ''new.pdf'',
      Str (replace (''old.pdf'' @ ''new.pdf'') pdfs_share ''''), Str ''V'',
      Str (str_nat (length (join [newline] (map lower ?old)))),
      Str (str_nat (length (join [newline] (map lower ?new)))),
      Str (if (\<exists>k\<in>set [''voltage'']. \<not> compare (the (?m1 (strip k))) (the (?m2 (strip k))))
           then ''Yes'' else ''No''),
      Str (join '', '' (map strip
             (filter (\<lambda>k. \<not> compare (the (?m1 (strip k))) (the (?m2 (strip k)))) [''voltage'']))),
      Str (join '', '' (sort (remdups (map (map_feature []) (map strip
             (filter (\<lambda>k. \<not> compare (the (?m1 (strip k))) (the (?m2 (strip k)))) [''voltage''])))))) ]
     @ concat (map (\<lambda>k. [Str (join ''|'' (the (?m1 (strip k)))),
                          Str (join ''|'' (the (?m2 (strip k)))),
                          Bool (compare (the (?m1 (strip k))) (the (?m2 (strip k))))]) [''voltage'']))"
      by (rule magic_main_result_row [OF a1 a3 le le b1 b3 s1 s2])
    also have "\<dots> = ?explicit" by code_simp
    finally show ?thesis .
  qed
  ultimately show ?thesis using p w ok1 ok2 le by blast
qed

text \<open>
  With the keywords \<open>voltage\<close> and \<open>current\<close>, both changed, the row lists them as
  \<open>voltage, current\<close>, which is the order of the keyword list and not the sorted order;
  the mapped features next to them are sorted.
\<close>

theorem changed_keywords_order_counterexample:
  "fst (magic_main sample_reader (Path ''old.pdf'', Path ''new.pdf'') [''voltage'', ''current''] ''V'' []) =
     Inr ([Str ''old.pdf'', Str ''new.pdf'', Str ''old.pdfnew.pdf'', Str ''V'', Str ''23'', Str ''23'',
      Str ''Yes'', Str ''voltage, current'', Str ''current, voltage'',
      Str ''voltage: 5v'', Str ''voltage: 3v'', Bool False,
      Str ''current: 1a'', Str ''current: 2a'', Bool False]) \<and>
   join '', '' [''voltage'', ''current''] = ''voltage, current'' \<and>
   \<not> sorted [''voltage'', ''current'']"
  by code_simp

section \<open>The error guard and the page limit\<close>

text \<open>
  Claim C4 says that on every input on which a step of the evaluation of a pair fails, the
  evaluator returns the row of the two identifiers and "Error in reading" and lets no
  exception out. For a pair with an empty cell it does not: counting the pages of the
  empty cell raises inside the \<open>try\<close>, the \<open>except\<close> clause builds its row, whose third
  element joins the two links and raises \<open>TypeError\<close> on what is not a string, and that
  exception leaves \<open>magic_main\<close>. This is so whether the empty cell is the first of the
  pair, where only its page count was asked for, or the second.
\<close>

theorem magic_main_empty_cell_raises:
  "count_of_pages sample_reader Empty = Inl TypeError \<and>
   magic_main sample_reader (Empty, Path ''new.pdf'') [''voltage''] ''V'' [] =
     (Inl TypeError, [Pages Empty]) \<and>
   magic_main sample_reader (Path ''old.pdf'', Empty) [''voltage''] ''V'' [] =
     (Inl TypeError, [Pages (Path ''old.pdf''), Pages Empty])"
  by code_simp




section \<open>The feature mapper\<close>

text \<open>
  Claim C6: in the row that \<open>compare_and_mapping\<close> returns, the cell of the mapped
  features is the list \<open>out\<close> joined by a comma and a space, where \<open>out\<close> holds, for each
  changed keyword, its feature and nothing else, without duplicates and in lexicographic
  order. The feature of a changed keyword is the mapped name, lowercased and stripped, of
  the first row of the table whose keyword, lowercased and stripped, equals the changed
  keyword, lowercased and stripped; with no such row it is the changed keyword itself,
  lowercased and stripped.
\<close>

theorem compare_and_mapping_features:
  assumes "compare_and_mapping m1 m2 keywords keyword_mapping = Inr row"
  shows
    "let changed = map strip
           (filter (\<lambda>k. \<not> compare (the (m1 (strip k))) (the (m2 (strip k)))) keywords);
         feature = (\<lambda>c. case find (\<lambda>r. strip (lower (fst r)) = strip (lower c)) keyword_mapping of
                           Some r \<Rightarrow> strip (lower (snd r))
                         | None \<Rightarrow> strip (lower c));
         out = sort (remdups (map feature changed))
     in row ! 2 = Str (join '', '' out) \<and> set out = feature ` set changed \<and>
        sorted out \<and> distinct out"
proof -
  have feature: "(\<lambda>c. case find (\<lambda>r. strip (lower (fst r)) = strip (lower c)) keyword_mapping of
                           Some r \<Rightarrow> strip (lower (snd r))
                         | None \<Rightarrow> strip (lower c)) = map_feature keyword_mapping"
    by (rule ext) (simp add: map_feature_find)
  from compare_and_mapping_row [OF compare_and_mapping_keys [OF assms], of keyword_mapping] assms
  have "row ! 2 = Str (join '', '' (sort (remdups (map (map_feature keyword_mapping) (map strip
                 (filter (\<lambda>k. \<not> compare (the (m1 (strip k))) (the (m2 (strip k)))) keywords))))))"
    by auto
  then show ?thesis
    unfolding Let_def feature by (simp add: image_image)
qed

text \<open>
  Four keywords, three of them changed: \<open>Voltage\<close> and \<open>power\<close> map to the same feature,
  the first row for \<open>voltage\<close> wins over the later one, and \<open>current\<close> is not in the
  table.
\<close>

theorem compare_and_mapping_features_witness:
  "\<not> isl (compare_and_mapping
      (map_of [(''Voltage'', [''5v'']), (''current'', [''1a'']), (''power'', [''1w'']), (''size'', [''1 m''])])
      (map_of [(''Voltage'', [''3v'']), (''current'', [''2a'']), (''power'', [''2w'']), (''size'', [''1m''])])
      [''Voltage '', ''current'', ''power'', ''size'']
      [(''VOLTAGE'', '' Supply ''), (''power'', ''supply''), (''voltage'', ''other'')]) \<and>
   projr (compare_and_mapping
      (map_of [(''Voltage'', [''5v'']), (''current'', [''1a'']), (''power'', [''1w'']), (''size'', [''1 m''])])
      (map_of [(''Voltage'', [''3v'']), (''current'', [''2a'']), (''power'', [''2w'']), (''size'', [''1m''])])
      [''Voltage '', ''current'', ''power'', ''size'']
      [(''VOLTAGE'', '' Supply ''), (''power'', ''supply''), (''voltage'', ''other'')]) ! 2 =
     Str ''current, supply''"
proof -
  let ?m1 = "map_of [(''Voltage'', [''5v'']), (''current'', [''1a'']), (''power'', [''1w'']), (''size'', [''1 m''])]"
  let ?m2 = "map_of [(''Voltage'', [''3v'']), (''current'', [''2a'']), (''power'', [''2w'']), (''size'', [''1m''])]"
  let ?ks = "[''Voltage '', ''current'', ''power'', ''size'']"
  let ?km = "[(''VOLTAGE'', '' Supply ''), (''power'', ''supply''), (''voltage'', ''other'')]"
  have ok: "\<not> isl (compare_and_mapping ?m1 ?m2 ?ks ?km)" by code_simp
  then have run: "compare_and_mapping ?m1 ?m2 ?ks ?km = Inr (projr (compare_and_mapping ?m1 ?m2 ?ks ?km))"
    by simp
  have out: "join '', '' (sort (remdups (map
       (\<lambda>c. case find (\<lambda>r. strip (lower (fst r)) = strip (lower c)) ?km of
               Some r \<Rightarrow> strip (lower (snd r)) | None \<Rightarrow> strip (lower c))
       (map strip (filter (\<lambda>k. \<not> compare (the (?m1 (strip k))) (the (?m2 (strip k)))) ?ks)))))
     = ''current, supply''"
    by code_simp
  from compare_and_mapping_features [OF run]
  have "projr (compare_and_mapping ?m1 ?m2 ?ks ?km) ! 2 = Str (join '', '' (sort (remdups (map
       (\<lambda>c. case find (\<lambda>r. strip (lower (fst r)) = strip (lower c)) ?km of
               Some r \<Rightarrow> strip (lower (snd r)) | None \<Rightarrow> strip (lower c))
       (map strip (filter (\<lambda>k. \<not> compare (the (?m1 (strip k))) (the (?m2 (strip k)))) ?ks))))))"
    unfolding Let_def by (rule conjunct1)
  with out ok show ?thesis by simp
qed

section \<open>The batch loop\<close>

text \<open>
  Claim C7 says that every list of pairs gets one row for each pair, in the order of the
  pairs. The loop does so when \<open>magic_main\<close> returns on every pair. It does not return on
  a pair with an empty cell, and then the loop stops: of three pairs, the second with an
  empty first cell, only the first gets a row, and the loop ends with the \<open>TypeError\<close>
  that left \<open>magic_main\<close>.
\<close>

theorem batch_results_empty_cell_stops:
  "batch_results sample_reader
     [(Path ''old.pdf'', Path ''copy.pdf''), (Empty, Path ''new.pdf''),
      (Path ''old.pdf'', Path ''long.pdf'')]
     [''voltage''] ''V'' [] =
   ([[Str ''old.pdf'', Str ''copy.pdf'', Str ''old.pdfcopy.pdf'', Str ''V'', Str ''23'',
      Str ''23'', Str ''No'', Str '''', Str '''', Str ''voltage: 5v'', Str ''voltage: 5v'',
      Bool True]],
    Some TypeError)"
  by code_simp

end
